theory Spec2Isabelle
  imports Complex_Main "HOL-Library.Char_ord" "HOL-Library.List_Lexorder"
begin

section \<open>Python values used by the genetics and pricing engine\<close>

text \<open>
  The exceptions the modelled code can raise. A function that can raise returns
  \<open>py_error + 'a\<close>, with \<open>Inl\<close> for the exception.
\<close>

datatype py_error = ValueError | IndexError | OverflowError | ZeroDivisionError | AttributeError

subsection \<open>Binary64 floating point\<close>

text \<open>
  A Python \<open>float\<close> is an IEEE 754 binary64 number. Finite values are kept as the
  rational they denote (the sign of zero is not kept: no modelled operation observes it).
  Every arithmetic operation computes the exact rational result and rounds it to the
  nearest representable value, ties to even, overflowing to an infinity.
\<close>

datatype pyfloat = Fin rat | PInf | NInf | NaN

definition pow2 :: "int \<Rightarrow> rat" where
  "pow2 e = (if 0 \<le> e then 2 ^ nat e else 1 / 2 ^ nat (- e))"

function bits :: "int \<Rightarrow> nat" where
  \<comment> \<open>the number of binary digits of a positive integer\<close>
  "bits n = (if n \<le> 0 then 0 else Suc (bits (n div 2)))"
  by pat_completeness auto
termination
  by (relation "measure nat") auto

declare bits.simps [simp del]

definition ilog2 :: "rat \<Rightarrow> int" where
  \<comment> \<open>\<open>\<lfloor>log\<^sub>2 a\<rfloor>\<close> for a positive rational\<close>
  "ilog2 a = (let (p, q) = quotient_of a;
                  e0 = int (bits p) - int (bits q)
              in if pow2 e0 \<le> a then e0 else e0 - 1)"

definition round_half_even :: "rat \<Rightarrow> int" where
  "round_half_even r = (let f = \<lfloor>r\<rfloor>; d = r - of_int f
                        in if d < 1 / 2 then f
                           else if 1 / 2 < d then f + 1
                           else if even f then f else f + 1)"

definition round_double :: "rat \<Rightarrow> pyfloat" where
  "round_double x =
     (if x = 0 then Fin 0
      else let a = \<bar>x\<bar>;
               e = max (ilog2 a) (- 1022);
               q = pow2 (e - 52);
               y = of_int (round_half_even (a / q)) * q
           in if pow2 1024 \<le> y then (if 0 < x then PInf else NInf)
              else Fin (if 0 < x then y else - y))"

definition float_of_int :: "int \<Rightarrow> py_error + pyfloat" where
  \<comment> \<open>the conversion Python applies to an \<open>int\<close> operand of a mixed operation\<close>
  "float_of_int i = (case round_double (of_int i) of
                       Fin y \<Rightarrow> Inr (Fin y)
                     | _ \<Rightarrow> Inl OverflowError)"

definition int_truediv :: "int \<Rightarrow> int \<Rightarrow> py_error + pyfloat" where
  \<comment> \<open>\<open>a / b\<close> on two \<open>int\<close>s: the correctly rounded quotient\<close>
  "int_truediv a b =
     (if b = 0 then Inl ZeroDivisionError
      else case round_double (of_int a / of_int b) of
             Fin y \<Rightarrow> Inr (Fin y)
           | _ \<Rightarrow> Inl OverflowError)"

fun fmul :: "pyfloat \<Rightarrow> pyfloat \<Rightarrow> pyfloat" where
  "fmul (Fin x) (Fin y) = round_double (x * y)"
| "fmul NaN _ = NaN"
| "fmul _ NaN = NaN"
| "fmul (Fin x) PInf = (if x = 0 then NaN else if 0 < x then PInf else NInf)"
| "fmul (Fin x) NInf = (if x = 0 then NaN else if 0 < x then NInf else PInf)"
| "fmul PInf (Fin y) = (if y = 0 then NaN else if 0 < y then PInf else NInf)"
| "fmul NInf (Fin y) = (if y = 0 then NaN else if 0 < y then NInf else PInf)"
| "fmul PInf PInf = PInf"
| "fmul PInf NInf = NInf"
| "fmul NInf PInf = NInf"
| "fmul NInf NInf = PInf"

fun fadd :: "pyfloat \<Rightarrow> pyfloat \<Rightarrow> pyfloat" where
  "fadd (Fin x) (Fin y) = round_double (x + y)"
| "fadd NaN _ = NaN"
| "fadd _ NaN = NaN"
| "fadd PInf NInf = NaN"
| "fadd NInf PInf = NaN"
| "fadd PInf _ = PInf"
| "fadd NInf _ = NInf"
| "fadd _ PInf = PInf"
| "fadd _ NInf = NInf"

fun fdiv :: "pyfloat \<Rightarrow> pyfloat \<Rightarrow> py_error + pyfloat" where
  "fdiv (Fin x) (Fin y) = (if y = 0 then Inl ZeroDivisionError else Inr (round_double (x / y)))"
| "fdiv PInf (Fin y) = (if y = 0 then Inl ZeroDivisionError else if 0 < y then Inr PInf else Inr NInf)"
| "fdiv NInf (Fin y) = (if y = 0 then Inl ZeroDivisionError else if 0 < y then Inr NInf else Inr PInf)"
| "fdiv NaN (Fin y) = (if y = 0 then Inl ZeroDivisionError else Inr NaN)"
| "fdiv (Fin x) PInf = Inr (Fin 0)"
| "fdiv (Fin x) NInf = Inr (Fin 0)"
| "fdiv _ _ = Inr NaN"

fun fge :: "pyfloat \<Rightarrow> pyfloat \<Rightarrow> bool" where
  \<comment> \<open>\<open>a >= b\<close>\<close>
  "fge NaN _ = False"
| "fge _ NaN = False"
| "fge PInf _ = True"
| "fge _ NInf = True"
| "fge NInf _ = False"
| "fge _ PInf = False"
| "fge (Fin x) (Fin y) = (y \<le> x)"

definition rat_trunc :: "rat \<Rightarrow> int" where
  \<comment> \<open>truncation toward zero\<close>
  "rat_trunc x = (if 0 \<le> x then \<lfloor>x\<rfloor> else \<lceil>x\<rceil>)"

fun py_int :: "pyfloat \<Rightarrow> py_error + int" where
  \<comment> \<open>\<open>int(x)\<close> on a float: truncation toward zero\<close>
  "py_int (Fin x) = Inr (rat_trunc x)"
| "py_int NaN = Inl ValueError"
| "py_int _ = Inl OverflowError"

text \<open>The float literals of the source, as the binary64 values they denote.\<close>

definition f_0_5 :: pyfloat where "f_0_5 = Fin (1 / 2)"
definition f_1_0 :: pyfloat where "f_1_0 = Fin 1"
definition f_1_5 :: pyfloat where "f_1_5 = Fin (3 / 2)"
definition f_1_3 :: pyfloat where "f_1_3 = round_double (13 / 10)"
definition f_0_7 :: pyfloat where "f_0_7 = round_double (7 / 10)"

subsection \<open>Strings and dictionaries\<close>

text \<open>
  A \<open>str\<close> is the list of its bytes. Comparing two strings is lexicographic on the bytes,
  which on UTF-8 is the order of the code points that Python compares by.
\<close>

fun split_on :: "char \<Rightarrow> string \<Rightarrow> string list" where
  \<comment> \<open>\<open>s.split(c)\<close> for a one-character separator\<close>
  "split_on c [] = [[]]"
| "split_on c (x # xs) =
     (if x = c then [] # split_on c xs
      else case split_on c xs of
             p # ps \<Rightarrow> (x # p) # ps
           | [] \<Rightarrow> [[x]])"

fun join :: "string \<Rightarrow> string list \<Rightarrow> string" where
  \<comment> \<open>\<open>sep.join(xs)\<close>\<close>
  "join sep [] = []"
| "join sep [x] = x"
| "join sep (x # y # ys) = x @ sep @ join sep (y # ys)"

text \<open>
  A \<open>dict\<close> is an association list in insertion order with distinct keys: storing under
  a key that is present replaces the value in place, a new key is appended.
\<close>

definition dict_set :: "('k \<times> 'v) list \<Rightarrow> 'k \<Rightarrow> 'v \<Rightarrow> ('k \<times> 'v) list" where
  "dict_set d k v =
     (if k \<in> fst ` set d then map (\<lambda>(k', v'). if k' = k then (k', v) else (k', v')) d
      else d @ [(k, v)])"

definition dict_get :: "('k \<times> 'v) list \<Rightarrow> 'k \<Rightarrow> 'v \<Rightarrow> 'v" where
  \<comment> \<open>\<open>d.get(k, default)\<close>\<close>
  "dict_get d k dflt = (case map_of d k of Some v \<Rightarrow> v | None \<Rightarrow> dflt)"

section \<open>PunnettSquare.calculate\<close>

record punnett_result =
  punnett_square :: "string list list"
  possible_offspring :: "string list"
  probabilities :: "(string \<times> pyfloat) list"
  offspring_genotypes :: "string list"

definition sorted_pair :: "string \<Rightarrow> string \<Rightarrow> string list" where
  \<comment> \<open>\<open>sorted([a, b])\<close>: a stable sort of two strings\<close>
  "sorted_pair a b = (if b < a then [b, a] else [a, b])"

definition count_genotype :: "(string \<times> int) list \<Rightarrow> string \<Rightarrow> (string \<times> int) list" where
  "count_genotype counts g = dict_set counts g (dict_get counts g 0 + 1)"

fun probabilities_of :: "(string \<times> int) list \<Rightarrow> int \<Rightarrow> py_error + (string \<times> pyfloat) list" where
  \<comment> \<open>the comprehension \<open>{g: (count / n) * 100 for g, count in counts.items()}\<close>\<close>
  "probabilities_of [] n = Inr []"
| "probabilities_of ((g, c) # rest) n =
     (case int_truediv c n of
        Inl e \<Rightarrow> Inl e
      | Inr r \<Rightarrow> (case float_of_int 100 of
                    Inl e \<Rightarrow> Inl e
                  | Inr h \<Rightarrow> (case probabilities_of rest n of
                                Inl e \<Rightarrow> Inl e
                              | Inr ps \<Rightarrow> Inr ((g, fmul r h) # ps))))"

definition calculate :: "string \<times> string \<Rightarrow> string \<times> string \<Rightarrow> py_error + punnett_result" where
  "calculate parent1_alleles parent2_alleles =
     (let p1_alleles = [fst parent1_alleles, snd parent1_alleles];
          p2_alleles = [fst parent2_alleles, snd parent2_alleles];
          punnett_grid = map (\<lambda>p1_allele.
                            map (\<lambda>p2_allele. join [] (sorted_pair p1_allele p2_allele)) p2_alleles)
                          p1_alleles;
          genotypes = concat punnett_grid;
          genotype_counts = foldl count_genotype [] genotypes
      in case probabilities_of genotype_counts (int (length genotypes)) of
           Inl e \<Rightarrow> Inl e
         | Inr probs \<Rightarrow>
             Inr \<lparr>punnett_square = punnett_grid,
                  possible_offspring = map fst genotype_counts,
                  probabilities = probs,
                  offspring_genotypes = genotypes\<rparr>)"

section \<open>The data model\<close>

text \<open>
  The rows of \<open>models.py\<close> that the engine reads and writes. A relationship attribute
  of a loaded \<open>PetGenetics\<close> object is \<open>None\<close> when its foreign key matches no row.
\<close>

record Gene =
  gene_id_of :: int
  gene_name :: string
  trait :: string

record Allele =
  allele_id :: int
  allele_gene_id :: int
  allele_name :: string
  symbol :: string
  dominance_level :: int
  effect_value :: int

record PetGenetics =
  pg_pet_id :: int
  pg_gene_id :: int
  allele1_id :: int
  allele2_id :: int
  gene :: "Gene option"
  allele1 :: "Allele option"
  allele2 :: "Allele option"

record Pet =
  pet_id :: int
  owner_id :: int
  pet_name :: string
  species :: string
  color :: string
  color_phenotype :: "string option"
  hair_type :: "string option"
  age_days :: int
  health :: int
  happiness :: int
  hunger :: int
  cleanliness :: int
  points :: int
  genetic_code :: "string option"
  speed :: int
  endurance :: int
  rarity_score :: int
  rarity_tier :: "string option"
  market_value :: int
  for_sale :: int
  asking_price :: "int option"

section \<open>PunnettSquare.get\_phenotype\<close>

record phenotype_info =
  phenotype :: string
  genotype :: "string option"
  info_effect_value :: int
  inheritance_type :: string
  is_pure :: "bool option"

definition dominance_order :: "string \<Rightarrow> int" where
  \<comment> \<open>\<open>{"B": 3, "O": 2, "W": 1}.get(s, 0)\<close>\<close>
  "dominance_order s =
     (if s = ''B'' then 3 else if s = ''O'' then 2 else if s = ''W'' then 1 else 0)"

definition int_avg :: "int \<Rightarrow> int \<Rightarrow> py_error + int" where
  \<comment> \<open>\<open>int((a + b) / 2)\<close>\<close>
  "int_avg a b = (case int_truediv (a + b) 2 of Inl e \<Rightarrow> Inl e | Inr avg \<Rightarrow> py_int avg)"

definition get_phenotype :: "Allele \<Rightarrow> Allele \<Rightarrow> string option \<Rightarrow> py_error + phenotype_info" where
  "get_phenotype a1 a2 name =
     (if name = Some ''coat_color'' then
        (let a1_sym = symbol a1; a2_sym = symbol a2;
             a1_dom = dominance_order a1_sym; a2_dom = dominance_order a2_sym
         in if a1_sym = a2_sym then
              Inr \<lparr>phenotype = allele_name a1 @ '' (pure)'',
                   genotype = Some (a1_sym @ a2_sym),
                   info_effect_value = effect_value a1,
                   inheritance_type = ''homozygous'',
                   is_pure = Some True\<rparr>
            else
              (case int_avg (effect_value a1) (effect_value a2) of
                 Inl e \<Rightarrow> Inl e
               | Inr avg \<Rightarrow>
                   (let dominant = (if a1_dom > a2_dom then a1 else a2);
                        recessive = (if a1_dom > a2_dom then a2 else a1)
                    in Inr \<lparr>phenotype = allele_name dominant @ ''-'' @ allele_name recessive @ '' mix'',
                            genotype = Some (join [] (sorted_pair a1_sym a2_sym)),
                            info_effect_value = avg,
                            inheritance_type = ''heterozygous'',
                            is_pure = Some False\<rparr>)))
      else if dominance_level a1 > dominance_level a2 then
        Inr \<lparr>phenotype = symbol a1, genotype = None, info_effect_value = effect_value a1,
             inheritance_type = ''dominant'', is_pure = None\<rparr>
      else if dominance_level a2 > dominance_level a1 then
        Inr \<lparr>phenotype = symbol a2, genotype = None, info_effect_value = effect_value a2,
             inheritance_type = ''dominant'', is_pure = None\<rparr>
      else
        (case int_avg (effect_value a1) (effect_value a2) of
           Inl e \<Rightarrow> Inl e
         | Inr avg \<Rightarrow>
             Inr \<lparr>phenotype = symbol a1 @ ''/'' @ symbol a2, genotype = None,
                  info_effect_value = avg, inheritance_type = ''co-dominant'', is_pure = None\<rparr>))"

section \<open>GeneticCode\<close>

definition encode_entry :: "PetGenetics \<Rightarrow> py_error + string" where
  \<comment> \<open>\<open>f"{pg.gene.name}:{pg.allele1.symbol}-{pg.allele2.symbol}"\<close>\<close>
  "encode_entry pg =
     (case gene pg of
        None \<Rightarrow> Inl AttributeError
      | Some g \<Rightarrow>
          (case allele1 pg of
             None \<Rightarrow> Inl AttributeError
           | Some a1 \<Rightarrow>
               (case allele2 pg of
                  None \<Rightarrow> Inl AttributeError
                | Some a2 \<Rightarrow> Inr (gene_name g @ '':'' @ symbol a1 @ ''-'' @ symbol a2))))"

fun encode_entries :: "PetGenetics list \<Rightarrow> py_error + string list" where
  "encode_entries [] = Inr []"
| "encode_entries (pg # rest) =
     (case encode_entry pg of
        Inl e \<Rightarrow> Inl e
      | Inr code \<Rightarrow> (case encode_entries rest of Inl e \<Rightarrow> Inl e | Inr codes \<Rightarrow> Inr (code # codes)))"

definition encode :: "PetGenetics list \<Rightarrow> py_error + string" where
  "encode pet_genetics =
     (case encode_entries pet_genetics of Inl e \<Rightarrow> Inl e | Inr codes \<Rightarrow> Inr (join '';'' codes))"

definition unpack2 :: "'a list \<Rightarrow> py_error + 'a \<times> 'a" where
  \<comment> \<open>\<open>x, y = xs\<close>: a list of any other length raises\<close>
  "unpack2 xs = (case xs of [x, y] \<Rightarrow> Inr (x, y) | _ \<Rightarrow> Inl ValueError)"

fun decode_pairs :: "(string \<times> string \<times> string) list \<Rightarrow> string list
                       \<Rightarrow> py_error + (string \<times> string \<times> string) list" where
  "decode_pairs genes [] = Inr genes"
| "decode_pairs genes (gene_pair # rest) =
     (if CHR '':'' \<in> set gene_pair then
        (case unpack2 (split_on CHR '':'' gene_pair) of
           Inl e \<Rightarrow> Inl e
         | Inr (name, alleles) \<Rightarrow>
             (case unpack2 (split_on CHR ''-'' alleles) of
                Inl e \<Rightarrow> Inl e
              | Inr (a1, a2) \<Rightarrow> decode_pairs (dict_set genes name (a1, a2)) rest))
      else decode_pairs genes rest)"

definition decode :: "string \<Rightarrow> py_error + (string \<times> string \<times> string) list" where
  "decode code = decode_pairs [] (split_on CHR '';'' code)"

section \<open>RarityCalculator\<close>

definition is_space :: "char \<Rightarrow> bool" where
  \<comment> \<open>the ASCII characters that \<open>str.strip()\<close> removes\<close>
  "is_space c = ((of_char c :: nat) \<in> {9, 10, 11, 12, 13, 28, 29, 30, 31, 32})"

definition strip :: "string \<Rightarrow> string" where
  \<comment> \<open>\<open>str.strip()\<close> on ASCII text\<close>
  "strip s = rev (dropWhile is_space (rev (dropWhile is_space s)))"

fun parse_pairs :: "(string \<times> string) list \<Rightarrow> string list \<Rightarrow> py_error + (string \<times> string) list" where
  "parse_pairs genes [] = Inr genes"
| "parse_pairs genes (gene_pair # rest) =
     (if CHR '':'' \<in> set gene_pair then
        (case unpack2 (split_on CHR '':'' gene_pair) of
           Inl e \<Rightarrow> Inl e
         | Inr (name, alleles) \<Rightarrow> parse_pairs (dict_set genes (strip name) (strip alleles)) rest)
      else parse_pairs genes rest)"

definition parse_genetic_code :: "string \<Rightarrow> py_error + (string \<times> string) list" where
  "parse_genetic_code code =
     (if code = [] then Inr [] else parse_pairs [] (split_on CHR '';'' code))"

record coat_info =
  coat_phenotype :: string
  coat_genotype :: string
  coat_is_pure :: bool
  coat_rarity_bonus :: int

definition color_names :: "string \<Rightarrow> string" where
  \<comment> \<open>\<open>{"B": "Brown", "O": "Orange", "W": "White"}.get(s, 'Unknown')\<close>\<close>
  "color_names s =
     (if s = ''B'' then ''Brown'' else if s = ''O'' then ''Orange''
      else if s = ''W'' then ''White'' else ''Unknown'')"

definition get_coat_phenotype :: "string \<Rightarrow> py_error + coat_info" where
  \<comment> \<open>\<open>coat_genotype[0]\<close> and \<open>coat_genotype[1]\<close> are the first two characters, on ASCII text\<close>
  "get_coat_phenotype code =
     (case parse_genetic_code code of
        Inl e \<Rightarrow> Inl e
      | Inr genes \<Rightarrow>
          (let g = dict_get genes ''coat_color'' ''WW''
           in case g of
                c1 # c2 # _ \<Rightarrow>
                  (let a1 = [c1]; a2 = [c2];
                       dom1 = dominance_order a1; dom2 = dominance_order a2
                   in if a1 = a2 then
                        Inr \<lparr>coat_phenotype = color_names a1 @ '' (pure)'', coat_genotype = g,
                             coat_is_pure = True, coat_rarity_bonus = 5\<rparr>
                      else
                        (let dominant = (if dom1 > dom2 then a1 else a2);
                             recessive = (if dom1 > dom2 then a2 else a1)
                         in Inr \<lparr>coat_phenotype = color_names dominant @ ''-'' @ color_names recessive @ '' mix'',
                                 coat_genotype = g, coat_is_pure = False, coat_rarity_bonus = 2\<rparr>))
              | _ \<Rightarrow> Inl IndexError))"

record hair_info =
  hair_kind :: string
  hair_genotype :: string
  is_fluffy :: bool
  hair_rarity_bonus :: int

definition get_hair_type :: "string \<Rightarrow> py_error + hair_info" where
  "get_hair_type code =
     (case parse_genetic_code code of
        Inl e \<Rightarrow> Inl e
      | Inr genes \<Rightarrow>
          (let g = dict_get genes ''hair_length'' ''HH'';
               fluffy = (CHR ''h'' \<in> set g \<and> count_list g CHR ''h'' \<ge> 1);
               is_homozygous_recessive = (g = ''hh'')
           in Inr \<lparr>hair_kind = (if fluffy then ''fluffy'' else ''short''),
                   hair_genotype = g,
                   is_fluffy = fluffy,
                   hair_rarity_bonus = (if is_homozygous_recessive then 3 else if fluffy then 1 else 0)\<rparr>))"

definition stat_quality_bonus :: "pyfloat \<Rightarrow> int" where
  "stat_quality_bonus stat_avg =
     (if fge stat_avg (Fin 80) then 5
      else if fge stat_avg (Fin 70) then 3
      else if fge stat_avg (Fin 60) then 1
      else 0)"

definition calculate_rarity_score :: "Pet \<Rightarrow> py_error + int" where
  "calculate_rarity_score pet =
     (case genetic_code pet of
        None \<Rightarrow> Inr 0
      | Some code \<Rightarrow>
          if code = [] then Inr 0
          else
            (case parse_genetic_code code of
               Inl e \<Rightarrow> Inl e
             | Inr genes \<Rightarrow>
                 (case get_coat_phenotype code of
                    Inl e \<Rightarrow> Inl e
                  | Inr coat \<Rightarrow>
                      (case get_hair_type code of
                         Inl e \<Rightarrow> Inl e
                       | Inr hair \<Rightarrow>
                           (let score1 = 0 + coat_rarity_bonus coat + hair_rarity_bonus hair;
                                speed_genotype = dict_get genes ''speed'' ''Ff'';
                                endurance_genotype = dict_get genes ''endurance'' ''Ee'';
                                score2 = score1 + (if speed_genotype \<in> set [''FF'', ''ff''] then 2 else 1);
                                score3 = score2 + (if endurance_genotype \<in> set [''EE'', ''ee''] then 2 else 1)
                            in case int_truediv (speed pet + endurance pet) 2 of
                                 Inl e \<Rightarrow> Inl e
                               | Inr stat_avg \<Rightarrow> Inr (score3 + stat_quality_bonus stat_avg))))))"

definition get_rarity_tier :: "int \<Rightarrow> string" where
  "get_rarity_tier score =
     (if score \<ge> 16 then ''Legendary''
      else if score \<ge> 11 then ''Rare''
      else if score \<ge> 6 then ''Uncommon''
      else ''Common'')"

definition base_prices :: "string \<Rightarrow> int" where
  \<comment> \<open>\<open>base_prices.get(tier, 100)\<close>\<close>
  "base_prices tier =
     (if tier = ''Common'' then 100 else if tier = ''Uncommon'' then 500
      else if tier = ''Rare'' then 2000 else if tier = ''Legendary'' then 10000 else 100)"

definition or_str :: "string option \<Rightarrow> string \<Rightarrow> string" where
  \<comment> \<open>\<open>x or dflt\<close> on an optional string\<close>
  "or_str x dflt = (case x of None \<Rightarrow> dflt | Some s \<Rightarrow> if s = [] then dflt else s)"

definition stat_multiplier_of :: "Pet \<Rightarrow> py_error + pyfloat" where
  \<comment> \<open>\<open>0.5 + (((pet.speed + pet.endurance) / 2) / 100) * 1.5\<close>\<close>
  "stat_multiplier_of pet =
     (case int_truediv (speed pet + endurance pet) 2 of
        Inl e \<Rightarrow> Inl e
      | Inr stat_avg \<Rightarrow>
          (case fdiv stat_avg (Fin 100) of
             Inl e \<Rightarrow> Inl e
           | Inr r \<Rightarrow> Inr (fadd f_0_5 (fmul r f_1_5))))"

definition price_of :: "Pet \<Rightarrow> py_error + int" where
  \<comment> \<open>the body of \<open>calculate_market_value\<close> after the rarity has been filled in\<close>
  "price_of pet =
     (let tier = or_str (rarity_tier pet) ''Common'';
          base_price = base_prices tier
      in case stat_multiplier_of pet of
           Inl e \<Rightarrow> Inl e
         | Inr stat_multiplier \<Rightarrow>
             (case get_coat_phenotype (or_str (genetic_code pet) []) of
                Inl e \<Rightarrow> Inl e
              | Inr coat \<Rightarrow>
                  (let color_multiplier = (if coat_is_pure coat then f_1_5 else f_1_0)
                   in case get_hair_type (or_str (genetic_code pet) []) of
                        Inl e \<Rightarrow> Inl e
                      | Inr hair \<Rightarrow>
                          (let hair_multiplier = (if is_fluffy hair then f_1_3 else f_1_0)
                           in case float_of_int base_price of
                                Inl e \<Rightarrow> Inl e
                              | Inr b \<Rightarrow>
                                  (case py_int (fmul (fmul (fmul b stat_multiplier) color_multiplier)
                                                  hair_multiplier) of
                                     Inl e \<Rightarrow> Inl e
                                   | Inr price \<Rightarrow> Inr (max price 50))))))"

definition calculate_market_value :: "Pet \<Rightarrow> Pet \<times> (py_error + int)" where
  \<comment> \<open>the pet after the call, and the returned value or the exception raised\<close>
  "calculate_market_value pet =
     (if rarity_score pet = 0 then
        (case calculate_rarity_score pet of
           Inl e \<Rightarrow> (pet, Inl e)
         | Inr score \<Rightarrow>
             (let pet1 = pet\<lparr>rarity_score := score\<rparr>;
                  pet2 = pet1\<lparr>rarity_tier := Some (get_rarity_tier (rarity_score pet1))\<rparr>
              in (pet2, price_of pet2)))
      else (pet, price_of pet))"

record valuation =
  val_rarity_score :: int
  val_rarity_tier :: "string option"
  val_market_value :: int
  val_coat_color :: string
  val_hair_type :: string
  val_speed :: int
  val_endurance :: int

definition calculate_and_store_valuation :: "Pet \<Rightarrow> Pet \<times> (py_error + valuation)" where
  "calculate_and_store_valuation pet =
     (case calculate_rarity_score pet of
        Inl e \<Rightarrow> (pet, Inl e)
      | Inr score \<Rightarrow>
          (let pet1 = pet\<lparr>rarity_score := score\<rparr>;
               pet2 = pet1\<lparr>rarity_tier := Some (get_rarity_tier (rarity_score pet1))\<rparr>
           in case calculate_market_value pet2 of
                (pet3, Inl e) \<Rightarrow> (pet3, Inl e)
              | (pet3, Inr v) \<Rightarrow>
                  (let pet4 = pet3\<lparr>market_value := v\<rparr>
                   in case get_coat_phenotype (or_str (genetic_code pet4) []) of
                        Inl e \<Rightarrow> (pet4, Inl e)
                      | Inr coat \<Rightarrow>
                          (case get_hair_type (or_str (genetic_code pet4) []) of
                             Inl e \<Rightarrow> (pet4, Inl e)
                           | Inr hair \<Rightarrow>
                               (let pet5 = pet4\<lparr>color_phenotype := Some (coat_phenotype coat)\<rparr>;
                                    pet6 = pet5\<lparr>hair_type := Some (hair_kind hair)\<rparr>
                                in (pet6,
                                    Inr \<lparr>val_rarity_score = rarity_score pet6,
                                         val_rarity_tier = rarity_tier pet6,
                                         val_market_value = market_value pet6,
                                         val_coat_color = coat_phenotype coat,
                                         val_hair_type = hair_kind hair,
                                         val_speed = speed pet6,
                                         val_endurance = endurance pet6\<rparr>))))))"

section \<open>The database session and the random source\<close>

record pg_row =
  row_pet_id :: int
  row_gene_id :: int
  row_allele1_id :: int
  row_allele2_id :: int

record punnett_record =
  pr_gene_name :: string
  parent1_genotype :: string
  parent2_genotype :: string
  pr_possible_offspring :: "string list"
  pr_probabilities :: "(string \<times> pyfloat) list"
  pr_punnett_square :: "string list list"
  offspring_genotype :: string

text \<open>
  The audit row. \<open>punnett_square_data\<close> holds the list that the source serialises with
  \<open>json.dumps\<close>; \<open>breeding_date\<close> and \<open>last_updated\<close> are clock readings and are left out.
\<close>

record Offspring =
  parent1_id :: int
  parent2_id :: int
  child_id :: int
  punnett_square_data :: "punnett_record list"
  inheritance_notes :: string

record db =
  genes :: "Gene list"
  alleles :: "Allele list"
  pet_genetics :: "pg_row list"
  pets :: "Pet list"
  offspring :: "Offspring list"

definition load_pet_genetics :: "db \<Rightarrow> pg_row \<Rightarrow> PetGenetics" where
  \<comment> \<open>a row as the ORM object, its relationships followed by primary key\<close>
  "load_pet_genetics d r =
     \<lparr>pg_pet_id = row_pet_id r, pg_gene_id = row_gene_id r,
      allele1_id = row_allele1_id r, allele2_id = row_allele2_id r,
      gene = find (\<lambda>g. gene_id_of g = row_gene_id r) (genes d),
      allele1 = find (\<lambda>a. allele_id a = row_allele1_id r) (alleles d),
      allele2 = find (\<lambda>a. allele_id a = row_allele2_id r) (alleles d)\<rparr>"

definition query_pet_genetics :: "db \<Rightarrow> int \<Rightarrow> PetGenetics list" where
  \<comment> \<open>\<open>db.query(PetGenetics).filter(PetGenetics.pet_id == pid).all()\<close>\<close>
  "query_pet_genetics d pid =
     map (load_pet_genetics d) (filter (\<lambda>r. row_pet_id r = pid) (pet_genetics d))"

definition query_allele :: "db \<Rightarrow> int \<Rightarrow> string \<Rightarrow> Allele option" where
  \<comment> \<open>\<open>db.query(Allele).filter(Allele.gene_id == gid, Allele.symbol == s).first()\<close>\<close>
  "query_allele d gid s = find (\<lambda>a. allele_gene_id a = gid \<and> symbol a = s) (alleles d)"

text \<open>
  The random source is a sequence of naturals, read at a position that each draw advances.
  \<open>random.choice(xs)\<close> and \<open>random.randint(lo, hi)\<close> reduce a drawn natural to their range,
  so every outcome of the source is the outcome for some sequence.
\<close>

definition random_choice :: "'a list \<Rightarrow> nat \<Rightarrow> 'a" where
  "random_choice xs r = xs ! (r mod length xs)"

definition random_randint :: "int \<Rightarrow> int \<Rightarrow> nat \<Rightarrow> int" where
  "random_randint lo hi r = lo + int (r mod nat (hi - lo + 1))"

section \<open>BreedingEngine.update\_stats\_from\_genetics\<close>

definition lower_char :: "char \<Rightarrow> char" where
  \<comment> \<open>\<open>str.lower()\<close> on one byte: the ASCII capitals are lowered\<close>
  "lower_char c = (if CHR ''A'' \<le> c \<and> c \<le> CHR ''Z'' then char_of (of_char c + (32::nat)) else c)"

definition lower :: "string \<Rightarrow> string" where
  "lower s = map lower_char s"

fun starts_with :: "string \<Rightarrow> string \<Rightarrow> bool" where
  "starts_with s [] = True"
| "starts_with [] (y # ys) = False"
| "starts_with (x # xs) (y # ys) = (x = y \<and> starts_with xs ys)"

fun contains :: "string \<Rightarrow> string \<Rightarrow> bool" where
  \<comment> \<open>\<open>t in s\<close> on strings\<close>
  "contains [] t = (t = [])"
| "contains (x # xs) t = (starts_with (x # xs) t \<or> contains xs t)"

definition speed_traits :: "string list" where
  "speed_traits = [''speed'', ''agility'', ''movement'']"

definition endurance_traits :: "string list" where
  "endurance_traits = [''endurance'', ''stamina'', ''energy'']"

definition routed :: "string list \<Rightarrow> string \<Rightarrow> bool" where
  \<comment> \<open>\<open>any(trait in gene_trait for trait in trait_names)\<close>\<close>
  "routed trait_names gene_trait = list_ex (\<lambda>t. contains gene_trait t) trait_names"

definition pg_effect :: "PetGenetics \<Rightarrow> py_error + string \<times> int" where
  \<comment> \<open>one iteration of the loop up to \<open>effect_value\<close>: the lowered gene name and the effect\<close>
  "pg_effect pg =
     (case gene pg of
        None \<Rightarrow> Inl AttributeError
      | Some g \<Rightarrow>
          (case allele1 pg of
             None \<Rightarrow> Inl AttributeError
           | Some a1 \<Rightarrow>
               (case allele2 pg of
                  None \<Rightarrow> Inl AttributeError
                | Some a2 \<Rightarrow>
                    (case get_phenotype a1 a2 (Some (gene_name g)) of
                       Inl e \<Rightarrow> Inl e
                     | Inr info \<Rightarrow> Inr (lower (gene_name g), info_effect_value info)))))"

fun stat_modifiers :: "int \<times> int \<Rightarrow> PetGenetics list \<Rightarrow> py_error + int \<times> int" where
  \<comment> \<open>the accumulation loop; the pair is \<open>(stat_modifiers["speed"], stat_modifiers["endurance"])\<close>\<close>
  "stat_modifiers acc [] = Inr acc"
| "stat_modifiers (sp, en) (pg # rest) =
     (case pg_effect pg of
        Inl e \<Rightarrow> Inl e
      | Inr (gene_trait, ev) \<Rightarrow>
          stat_modifiers (if routed speed_traits gene_trait then sp + ev else sp,
                          if routed endurance_traits gene_trait then en + ev else en) rest)"

definition derive_stat :: "int \<Rightarrow> int \<Rightarrow> py_error + int" where
  \<comment> \<open>\<open>int(50 + (modifier * 0.7) + r)\<close> for the drawn \<open>r\<close>\<close>
  "derive_stat modifier r =
     (case float_of_int modifier of
        Inl e \<Rightarrow> Inl e
      | Inr m \<Rightarrow>
          (case float_of_int r of
             Inl e \<Rightarrow> Inl e
           | Inr rf \<Rightarrow> py_int (fadd (fadd (Fin 50) (fmul m f_0_7)) rf)))"

definition clamp_stat :: "int \<Rightarrow> int" where
  "clamp_stat v = max 0 (min 100 v)"

definition update_stats_from_genetics :: "db \<Rightarrow> Pet \<Rightarrow> (nat \<Rightarrow> nat) \<Rightarrow> nat \<Rightarrow> py_error + Pet" where
  \<comment> \<open>the pet after the call; the two draws are at positions \<open>k\<close> and \<open>k + 1\<close>\<close>
  "update_stats_from_genetics d pet rnd k =
     (let pgs = query_pet_genetics d (pet_id pet)
      in if pgs = [] then Inr pet
         else
           (case stat_modifiers (0, 0) pgs of
              Inl e \<Rightarrow> Inl e
            | Inr (sp, en) \<Rightarrow>
                (case derive_stat sp (random_randint (- 5) 5 (rnd k)) of
                   Inl e \<Rightarrow> Inl e
                 | Inr s \<Rightarrow>
                     (case derive_stat en (random_randint (- 5) 5 (rnd (k + 1))) of
                        Inl e \<Rightarrow> Inl e
                      | Inr n \<Rightarrow>
                          (let pet1 = pet\<lparr>speed := s\<rparr>;
                               pet2 = pet1\<lparr>endurance := n\<rparr>;
                               pet3 = pet2\<lparr>speed := clamp_stat (speed pet2)\<rparr>
                           in Inr (pet3\<lparr>endurance := clamp_stat (endurance pet3)\<rparr>))))))"

section \<open>BreedingEngine.breed\<close>

record breed_acc =
  punnett_squares :: "punnett_record list"
  offspring_alleles :: "(int \<times> Allele \<times> Allele) list"
  inheritance_note_list :: "string list"
  draws :: nat

definition first_two :: "string \<Rightarrow> py_error + string \<times> string" where
  \<comment> \<open>\<open>allele_symbols[0]\<close> and \<open>allele_symbols[1]\<close> of \<open>list(offspring_genotype)\<close>, on ASCII text\<close>
  "first_two s = (case s of c1 # c2 # _ \<Rightarrow> Inr ([c1], [c2]) | _ \<Rightarrow> Inl IndexError)"

definition breed_gene :: "db \<Rightarrow> string \<Rightarrow> string \<Rightarrow> (nat \<Rightarrow> nat) \<Rightarrow> breed_acc
                          \<Rightarrow> PetGenetics \<times> PetGenetics \<Rightarrow> py_error + breed_acc" where
  \<comment> \<open>the loop body for one position of the two parents' lists\<close>
  "breed_gene d p1_name p2_name rnd acc pp =
     (let p1_gene = fst pp; p2_gene = snd pp
      in if pg_gene_id p1_gene \<noteq> pg_gene_id p2_gene then Inr acc
         else
           (case (allele1 p1_gene, allele2 p1_gene, allele1 p2_gene, allele2 p2_gene) of
              (Some a11, Some a12, Some a21, Some a22) \<Rightarrow>
                (let p1_alleles = (symbol a11, symbol a12);
                     p2_alleles = (symbol a21, symbol a22)
                 in case calculate p1_alleles p2_alleles of
                      Inl e \<Rightarrow> Inl e
                    | Inr ps_result \<Rightarrow>
                        (let og = random_choice (offspring_genotypes ps_result) (rnd (draws acc))
                         in case gene p1_gene of
                              None \<Rightarrow> Inl AttributeError
                            | Some g \<Rightarrow>
                                (case first_two og of
                                   Inl e \<Rightarrow> Inl e
                                 | Inr (s0, s1) \<Rightarrow>
                                     (let allele1_obj = query_allele d (gene_id_of g) s0;
                                          allele2_obj = query_allele d (gene_id_of g) s1;
                                          oa = (case (allele1_obj, allele2_obj) of
                                                  (Some x, Some y) \<Rightarrow>
                                                    dict_set (offspring_alleles acc) (gene_id_of g) (x, y)
                                                | _ \<Rightarrow> offspring_alleles acc)
                                      in Inr \<lparr>punnett_squares = punnett_squares acc @
                                                [\<lparr>pr_gene_name = gene_name g,
                                                  parent1_genotype = fst p1_alleles @ snd p1_alleles,
                                                  parent2_genotype = fst p2_alleles @ snd p2_alleles,
                                                  pr_possible_offspring = possible_offspring ps_result,
                                                  pr_probabilities = probabilities ps_result,
                                                  pr_punnett_square = punnett_square ps_result,
                                                  offspring_genotype = og\<rparr>],
                                              offspring_alleles = oa,
                                              inheritance_note_list = inheritance_note_list acc @
                                                [trait g @ '': '' @ og @ '' (from '' @ p1_name @ '':'' @
                                                 fst p1_alleles @ ''/'' @ snd p1_alleles @ '' x '' @
                                                 p2_name @ '':'' @ fst p2_alleles @ ''/'' @
                                                 snd p2_alleles @ '')''],
                                              draws = draws acc + 1\<rparr>))))
            | _ \<Rightarrow> Inl AttributeError))"

fun breed_loop :: "db \<Rightarrow> string \<Rightarrow> string \<Rightarrow> (nat \<Rightarrow> nat) \<Rightarrow> breed_acc
                    \<Rightarrow> (PetGenetics \<times> PetGenetics) list \<Rightarrow> py_error + breed_acc" where
  "breed_loop d n1 n2 rnd acc [] = Inr acc"
| "breed_loop d n1 n2 rnd acc (pp # rest) =
     (case breed_gene d n1 n2 rnd acc pp of
        Inl e \<Rightarrow> Inl e
      | Inr acc' \<Rightarrow> breed_loop d n1 n2 rnd acc' rest)"

definition next_pet_id :: "db \<Rightarrow> int" where
  \<comment> \<open>the primary key the flush assigns to a new pet\<close>
  "next_pet_id d = foldr max (map pet_id (pets d)) 0 + 1"

definition new_pet :: "int \<Rightarrow> int \<Rightarrow> string \<Rightarrow> string \<Rightarrow> string \<Rightarrow> Pet" where
  \<comment> \<open>\<open>Pet(owner_id=.., name=.., species=.., color=..)\<close> after the flush: column defaults applied\<close>
  "new_pet pid oid nm sp col =
     \<lparr>pet_id = pid, owner_id = oid, pet_name = nm, species = sp, color = col,
      color_phenotype = None, hair_type = Some ''short'', age_days = 0, health = 100,
      happiness = 100, hunger = 3, cleanliness = 100, points = 0, genetic_code = None,
      speed = 50, endurance = 50, rarity_score = 0, rarity_tier = Some ''Common'',
      market_value = 100, for_sale = 0, asking_price = None\<rparr>"

definition genetics_row :: "int \<Rightarrow> int \<times> Allele \<times> Allele \<Rightarrow> pg_row" where
  "genetics_row pid entry =
     (case entry of (gid, a1, a2) \<Rightarrow>
        \<lparr>row_pet_id = pid, row_gene_id = gid,
         row_allele1_id = allele_id a1, row_allele2_id = allele_id a2\<rparr>)"

definition store_pet :: "db \<Rightarrow> Pet \<Rightarrow> db" where
  \<comment> \<open>the session's view of a pet object after attribute assignments\<close>
  "store_pet d pet = d\<lparr>pets := map (\<lambda>p. if pet_id p = pet_id pet then pet else p) (pets d)\<rparr>"

definition finish_offspring :: "db \<Rightarrow> Pet \<Rightarrow> (nat \<Rightarrow> nat) \<Rightarrow> nat \<Rightarrow> Pet \<times> (py_error + valuation)" where
  \<comment> \<open>genetic code, stats and valuation of the new pet\<close>
  "finish_offspring d pet rnd k =
     (case encode (query_pet_genetics d (pet_id pet)) of
        Inl e \<Rightarrow> (pet, Inl e)
      | Inr code \<Rightarrow>
          (let pet1 = pet\<lparr>genetic_code := Some code\<rparr>
           in case update_stats_from_genetics d pet1 rnd k of
                Inl e \<Rightarrow> (pet1, Inl e)
              | Inr pet2 \<Rightarrow> calculate_and_store_valuation pet2))"

definition breed :: "db \<Rightarrow> Pet \<Rightarrow> Pet \<Rightarrow> string \<Rightarrow> string \<Rightarrow> string \<Rightarrow> int \<Rightarrow> (nat \<Rightarrow> nat)
                     \<Rightarrow> db \<times> (py_error + Pet \<times> punnett_record list \<times> string)" where
  \<comment> \<open>the session after the call, and the returned triple or the exception raised\<close>
  "breed d parent1 parent2 child_name child_species child_color oid rnd =
     (let parent1_genetics = query_pet_genetics d (pet_id parent1);
          parent2_genetics = query_pet_genetics d (pet_id parent2)
      in if parent1_genetics = [] \<or> parent2_genetics = [] then (d, Inl ValueError)
         else
           (case breed_loop d (pet_name parent1) (pet_name parent2) rnd
                   \<lparr>punnett_squares = [], offspring_alleles = [], inheritance_note_list = [], draws = 0\<rparr>
                   (zip parent1_genetics parent2_genetics) of
              Inl e \<Rightarrow> (d, Inl e)
            | Inr acc \<Rightarrow>
                (let child = new_pet (next_pet_id d) oid child_name child_species child_color;
                     d1 = d\<lparr>pets := pets d @ [child]\<rparr>;
                     d2 = d1\<lparr>pet_genetics := pet_genetics d1 @
                                 map (genetics_row (pet_id child)) (offspring_alleles acc)\<rparr>
                 in case finish_offspring d2 child rnd (draws acc) of
                      (child', Inl e) \<Rightarrow> (store_pet d2 child', Inl e)
                    | (child', Inr v) \<Rightarrow>
                        (let inheritance_summary = join '' | '' (inheritance_note_list acc);
                             d3 = store_pet d2 child';
                             d4 = d3\<lparr>offspring := offspring d3 @
                                         [\<lparr>parent1_id = pet_id parent1, parent2_id = pet_id parent2,
                                           child_id = pet_id child',
                                           punnett_square_data = punnett_squares acc,
                                           inheritance_notes = inheritance_summary\<rparr>]\<rparr>
                         in (d4, Inr (child', punnett_squares acc, inheritance_summary))))))"

section \<open>The seeded catalog\<close>

text \<open>
  The genes and alleles that \<open>initialize_genetics_system\<close> inserts into an empty database,
  with the primary keys the inserts receive, and a session holding two pets with a genotype
  and one without.
\<close>

definition gene_coat_color :: Gene where
  "gene_coat_color = \<lparr>gene_id_of = 1, gene_name = ''coat_color'', trait = ''Coat Color''\<rparr>"

definition gene_hair_length :: Gene where
  "gene_hair_length = \<lparr>gene_id_of = 2, gene_name = ''hair_length'', trait = ''Hair Length''\<rparr>"

definition gene_speed :: Gene where
  "gene_speed = \<lparr>gene_id_of = 3, gene_name = ''speed'', trait = ''Movement Speed''\<rparr>"

definition gene_endurance :: Gene where
  "gene_endurance = \<lparr>gene_id_of = 4, gene_name = ''endurance'', trait = ''Energy Level''\<rparr>"

definition seeded_genes :: "Gene list" where
  "seeded_genes = [gene_coat_color, gene_hair_length, gene_speed, gene_endurance]"

definition allele_B :: Allele where
  "allele_B = \<lparr>allele_id = 1, allele_gene_id = 1, allele_name = ''Brown'', symbol = ''B'',
                dominance_level = 3, effect_value = 20\<rparr>"

definition allele_O :: Allele where
  "allele_O = \<lparr>allele_id = 2, allele_gene_id = 1, allele_name = ''Orange'', symbol = ''O'',
                dominance_level = 2, effect_value = 10\<rparr>"

definition allele_W :: Allele where
  "allele_W = \<lparr>allele_id = 3, allele_gene_id = 1, allele_name = ''White'', symbol = ''W'',
                dominance_level = 1, effect_value = 0\<rparr>"

definition allele_H :: Allele where
  "allele_H = \<lparr>allele_id = 4, allele_gene_id = 2, allele_name = ''Short'', symbol = ''H'',
                dominance_level = 2, effect_value = 5\<rparr>"

definition allele_h :: Allele where
  "allele_h = \<lparr>allele_id = 5, allele_gene_id = 2, allele_name = ''Fluffy'', symbol = ''h'',
                dominance_level = 1, effect_value = 15\<rparr>"

definition allele_F :: Allele where
  "allele_F = \<lparr>allele_id = 6, allele_gene_id = 3, allele_name = ''Fast'', symbol = ''F'',
                dominance_level = 2, effect_value = 20\<rparr>"

definition allele_f :: Allele where
  "allele_f = \<lparr>allele_id = 7, allele_gene_id = 3, allele_name = ''Slow'', symbol = ''f'',
                dominance_level = 1, effect_value = - 20\<rparr>"

definition allele_E :: Allele where
  "allele_E = \<lparr>allele_id = 8, allele_gene_id = 4, allele_name = ''Energetic'', symbol = ''E'',
                dominance_level = 2, effect_value = 20\<rparr>"

definition allele_e :: Allele where
  "allele_e = \<lparr>allele_id = 9, allele_gene_id = 4, allele_name = ''Lazy'', symbol = ''e'',
                dominance_level = 1, effect_value = - 20\<rparr>"

definition seeded_alleles :: "Allele list" where
  "seeded_alleles = [allele_B, allele_O, allele_W, allele_H, allele_h,
                     allele_F, allele_f, allele_E, allele_e]"

definition example_db :: db where
  "example_db =
     \<lparr>genes = seeded_genes,
      alleles = seeded_alleles,
      pet_genetics =
        [\<lparr>row_pet_id = 1, row_gene_id = 1, row_allele1_id = 1, row_allele2_id = 1\<rparr>,
         \<lparr>row_pet_id = 1, row_gene_id = 3, row_allele1_id = 6, row_allele2_id = 7\<rparr>,
         \<lparr>row_pet_id = 2, row_gene_id = 1, row_allele1_id = 1, row_allele2_id = 2\<rparr>,
         \<lparr>row_pet_id = 2, row_gene_id = 4, row_allele1_id = 8, row_allele2_id = 9\<rparr>],
      pets = [new_pet 1 1 ''Ada'' ''guinea_pig'' ''brown'',
              new_pet 2 1 ''Bob'' ''guinea_pig'' ''orange'',
              new_pet 3 1 ''Cy'' ''guinea_pig'' ''white''],
      offspring = []\<rparr>"

section \<open>Well-formed genetic codes\<close>

definition well_formed_segment :: "string \<Rightarrow> bool" where
  \<comment> \<open>exactly one \<open>:\<close>, and exactly one \<open>-\<close> after it\<close>
  "well_formed_segment seg =
     (count_list seg CHR '':'' = 1 \<and>
      count_list (dropWhile (\<lambda>x. x \<noteq> CHR '':'') seg) CHR ''-'' = 1)"

definition entry_of :: "PetGenetics \<Rightarrow> (string \<times> string \<times> string) option" where
  \<comment> \<open>the genotype entry a loaded row stands for: gene name and the two allele symbols\<close>
  "entry_of pg =
     (case (gene pg, allele1 pg, allele2 pg) of
        (Some g, Some a, Some b) \<Rightarrow> Some (gene_name g, symbol a, symbol b)
      | _ \<Rightarrow> None)"


definition delimiters :: "char set" where
  "delimiters = {CHR '':'', CHR '';'', CHR ''-''}"

definition well_formed_entry :: "string \<times> string \<times> string \<Rightarrow> bool" where
  \<comment> \<open>a gene name free of the delimiters and two one-character symbols that are no delimiter\<close>
  "well_formed_entry entry =
     (case entry of (name, a, b) \<Rightarrow>
        set name \<inter> delimiters = {} \<and> length a = 1 \<and> length b = 1 \<and>
        set a \<inter> delimiters = {} \<and> set b \<inter> delimiters = {})"

section \<open>A catalog with a weak speed allele\<close>

text \<open>
  A session whose only gene is \<open>speed\<close>, with one allele of effect value 1, and one pet
  carrying that allele twice.
\<close>

definition allele_S :: Allele where
  "allele_S = \<lparr>allele_id = 10, allele_gene_id = 3, allele_name = ''Brisk'', symbol = ''S'',
                dominance_level = 1, effect_value = 1\<rparr>"

definition brisk_db :: db where
  "brisk_db =
     \<lparr>genes = [gene_speed],
      alleles = [allele_S],
      pet_genetics = [\<lparr>row_pet_id = 1, row_gene_id = 3, row_allele1_id = 10, row_allele2_id = 10\<rparr>],
      pets = [new_pet 1 1 ''Ada'' ''guinea_pig'' ''brown''],
      offspring = []\<rparr>"

lemmas catalog_defs =
  gene_coat_color_def gene_hair_length_def gene_speed_def gene_endurance_def
  allele_B_def allele_O_def allele_W_def allele_H_def allele_h_def
  allele_F_def allele_f_def allele_E_def allele_e_def

section \<open>Properties of the floating-point model\<close>

lemma pow2_powi: "pow2 e = 2 powi e"
  by (simp add: pow2_def power_int_def field_simps)

lemma pow2_pos: "0 < pow2 e"
  by (simp add: pow2_powi zero_less_power_int)

lemma pow2_add: "pow2 (a + b) = pow2 a * pow2 b"
  by (simp add: pow2_powi power_int_add)

lemma pow2_mono: "a \<le> b \<Longrightarrow> pow2 a \<le> pow2 b"
  by (simp add: pow2_powi power_int_increasing)

lemma pow2_strict_mono: "a < b \<Longrightarrow> pow2 a < pow2 b"
  by (simp add: pow2_powi power_int_strict_increasing)

lemma bits_bounds: "0 < n \<Longrightarrow> 2 ^ (bits n - 1) \<le> n \<and> n < 2 ^ bits n"
proof (induction n rule: bits.induct)
  case (1 n)
  show ?case
  proof (cases "n = 1")
    case True
    then show ?thesis by (simp add: bits.simps)
  next
    case False
    with "1.prems" have h: "0 < n div 2" by simp
    with 1 have ih: "2 ^ (bits (n div 2) - 1) \<le> n div 2 \<and> n div 2 < 2 ^ bits (n div 2)" by simp
    have b: "bits n = Suc (bits (n div 2))" using "1.prems" by (subst bits.simps) simp
    have pos: "0 < bits (n div 2)" using h by (subst bits.simps) simp
    then obtain k where k: "bits (n div 2) = Suc k" by (cases "bits (n div 2)") auto
    from ih k have "2 * 2 ^ k \<le> 2 * (n div 2)" by simp
    also have "\<dots> \<le> n" by simp
    finally have lo: "2 ^ (bits n - 1) \<le> n" using b k by simp
    from ih have "n div 2 + 1 \<le> 2 ^ bits (n div 2)" by simp
    then have "2 * (n div 2) + 2 \<le> 2 * 2 ^ bits (n div 2)" by simp
    moreover have "n < 2 * (n div 2) + 2" by presburger
    ultimately have hi: "n < 2 ^ bits n" using b by simp
    from lo hi show ?thesis by simp
  qed
qed

lemma ilog2_bounds:
  assumes "0 < a"
  shows "pow2 (ilog2 a) \<le> a \<and> a < pow2 (ilog2 a + 1)"
proof -
  obtain p q where pq: "quotient_of a = (p, q)" by (cases "quotient_of a")
  then have q: "0 < q" using quotient_of_denom_pos by blast
  have a: "a = of_int p / of_int q" using pq by (simp add: quotient_of_div)
  with assms q have p: "0 < p" by (simp add: zero_less_divide_iff)
  define bp where "bp = bits p"
  define bq where "bq = bits q"
  define e0 where "e0 = int bp - int bq"
  from bits_bounds[OF p] have P: "(2::int) ^ (bp - 1) \<le> p" "p < 2 ^ bp" by (simp_all add: bp_def)
  from bits_bounds[OF q] have Q: "(2::int) ^ (bq - 1) \<le> q" "q < 2 ^ bq" by (simp_all add: bq_def)
  have bp0: "0 < bp" using p unfolding bp_def by (subst bits.simps) simp
  have bq0: "0 < bq" using q unfolding bq_def by (subst bits.simps) simp
  have Pr: "(2::rat) ^ (bp - 1) \<le> of_int p" "(of_int p :: rat) < 2 ^ bp"
    using P by (metis of_int_le_iff of_int_numeral of_int_power, metis of_int_less_iff of_int_numeral of_int_power)
  have Qr: "(2::rat) ^ (bq - 1) \<le> of_int q" "(of_int q :: rat) < 2 ^ bq"
    using Q by (metis of_int_le_iff of_int_numeral of_int_power, metis of_int_less_iff of_int_numeral of_int_power)
  have qr: "(0::rat) < of_int q" using q by simp
  have up: "a < pow2 (e0 + 1)"
  proof -
    have "of_int p * (2::rat) ^ (bq - 1) < 2 ^ bp * of_int q"
      using Pr Qr qr p by (meson mult_less_le_imp_less of_int_pos zero_less_numeral zero_less_power less_imp_le of_int_0_less_iff zero_le_power zero_le_numeral)
    moreover have "pow2 (e0 + 1) = 2 ^ bp / 2 ^ (bq - 1)"
    proof -
      have "e0 + 1 = int bp - int (bq - 1)" using bq0 by (simp add: e0_def)
      then show ?thesis by (simp add: pow2_powi power_int_diff)
    qed
    moreover have "of_int p / of_int q < (2::rat) ^ bp / 2 ^ (bq - 1)"
      using calculation(1) qr by (simp add: field_simps)
    ultimately show ?thesis using a by simp
  qed
  have lo: "pow2 (e0 - 1) < a"
  proof -
    have "(2::rat) ^ (bp - 1) * of_int q < of_int p * 2 ^ bq"
      using Pr Qr qr p by (meson mult_le_less_imp_less of_int_pos zero_less_numeral zero_less_power less_imp_le of_int_0_less_iff zero_le_power zero_le_numeral)
    moreover have "pow2 (e0 - 1) = 2 ^ (bp - 1) / 2 ^ bq"
    proof -
      have "e0 - 1 = int (bp - 1) - int bq" using bp0 by (simp add: e0_def)
      then show ?thesis by (simp add: pow2_powi power_int_diff)
    qed
    moreover have "(2::rat) ^ (bp - 1) / 2 ^ bq < of_int p / of_int q"
      using calculation(1) qr by (simp add: field_simps)
    ultimately show ?thesis using a by simp
  qed
  have il: "ilog2 a = (if pow2 e0 \<le> a then e0 else e0 - 1)"
    by (simp add: ilog2_def pq e0_def bp_def bq_def Let_def)
  show ?thesis
  proof (cases "pow2 e0 \<le> a")
    case True
    then show ?thesis using il up by simp
  next
    case False
    then show ?thesis using il lo by simp
  qed
qed

lemma ilog2_unique:
  assumes "pow2 e \<le> a" "a < pow2 (e + 1)"
  shows "ilog2 a = e"
proof -
  have a: "0 < a" using assms(1) pow2_pos[of e] by simp
  from ilog2_bounds[OF a] have b: "pow2 (ilog2 a) \<le> a" "a < pow2 (ilog2 a + 1)" by simp_all
  have "\<not> ilog2 a < e"
  proof
    assume "ilog2 a < e"
    then have "pow2 (ilog2 a + 1) \<le> pow2 e" by (intro pow2_mono) simp
    with b assms show False by simp
  qed
  moreover have "\<not> e < ilog2 a"
  proof
    assume "e < ilog2 a"
    then have "pow2 (e + 1) \<le> pow2 (ilog2 a)" by (intro pow2_mono) simp
    with b assms show False by simp
  qed
  ultimately show ?thesis by simp
qed

lemma round_half_even_near: "\<bar>r - of_int n\<bar> < 1 / 2 \<Longrightarrow> round_half_even r = n"
proof -
  assume h: "\<bar>r - of_int n\<bar> < 1 / 2"
  have f: "of_int \<lfloor>r\<rfloor> \<le> r" "r < of_int \<lfloor>r\<rfloor> + 1" by linarith+
  consider "\<lfloor>r\<rfloor> = n" | "\<lfloor>r\<rfloor> = n - 1"
  proof -
    have "r < of_int n + 1" "of_int n - 1 < r" using h by linarith+
    then have "\<lfloor>r\<rfloor> < n + 1" "n - 1 \<le> \<lfloor>r\<rfloor>" by linarith+
    then have "\<lfloor>r\<rfloor> = n \<or> \<lfloor>r\<rfloor> = n - 1" by linarith
    then show ?thesis using that by blast
  qed
  then show ?thesis
  proof cases
    case 1
    then have "r - of_int \<lfloor>r\<rfloor> < 1 / 2" using h by linarith
    then show ?thesis using 1 by (simp add: round_half_even_def Let_def)
  next
    case 2
    have "of_int \<lfloor>r\<rfloor> = (of_int n :: rat) - 1" by (simp add: 2)
    then have "1 / 2 < r - of_int \<lfloor>r\<rfloor>" using h by linarith
    then show ?thesis using 2 by (simp add: round_half_even_def Let_def)
  qed
qed

lemma round_half_even_err: "\<bar>of_int (round_half_even r) - r\<bar> \<le> 1 / 2"
proof -
  have f: "of_int \<lfloor>r\<rfloor> \<le> r" "r < of_int \<lfloor>r\<rfloor> + 1" by linarith+
  show ?thesis
    unfolding round_half_even_def Let_def using f
    by (auto simp: abs_le_iff) 
qed


lemma round_half_even_tie_even: "r = of_int n + 1 / 2 \<Longrightarrow> even n \<Longrightarrow> round_half_even r = n"
proof -
  assume r: "r = of_int n + 1 / 2" and e: "even n"
  have "\<lfloor>r\<rfloor> = n" unfolding r by (simp add: floor_unique)
  then show ?thesis using r e by (simp add: round_half_even_def Let_def)
qed

lemma round_half_even_tie_odd: "r = of_int n + 1 / 2 \<Longrightarrow> odd n \<Longrightarrow> round_half_even r = n + 1"
proof -
  assume r: "r = of_int n + 1 / 2" and e: "odd n"
  have "\<lfloor>r\<rfloor> = n" unfolding r by (simp add: floor_unique)
  then show ?thesis using r e by (simp add: round_half_even_def Let_def)
qed

lemma round_half_even_le: "r \<le> of_int N \<Longrightarrow> round_half_even r \<le> N"
proof -
  assume h: "r \<le> of_int N"
  have e: "\<bar>of_int (round_half_even r) - r\<bar> \<le> 1 / 2" by (rule round_half_even_err)
  then have "of_int (round_half_even r) \<le> (of_int N :: rat) + 1 / 2" using h by linarith
  then have "(of_int (round_half_even r) :: rat) < of_int (N + 1)" by simp
  then have "round_half_even r < N + 1" by (simp only: of_int_less_iff)
  then show ?thesis by simp
qed

lemma round_half_even_nonneg: "0 \<le> r \<Longrightarrow> 0 \<le> round_half_even r"
proof -
  assume h: "0 \<le> r"
  have e: "\<bar>of_int (round_half_even r) - r\<bar> \<le> 1 / 2" by (rule round_half_even_err)
  then have "(- 1 :: rat) < of_int (round_half_even r)" using h by linarith
  then have "(of_int (- 1) :: rat) < of_int (round_half_even r)" by simp
  then have "- 1 < round_half_even r" by (simp only: of_int_less_iff)
  then show ?thesis by simp
qed

lemma round_double_pos:
  assumes "pow2 e \<le> x" "x < pow2 (e + 1)" "- 1022 \<le> e"
    and "round_half_even (x / pow2 (e - 52)) = n"
    and "of_int n * pow2 (e - 52) < pow2 1024"
  shows "round_double x = Fin (of_int n * pow2 (e - 52))"
proof -
  have x: "0 < x" using assms(1) pow2_pos[of e] by simp
  have "ilog2 x = e" using assms(1,2) by (rule ilog2_unique)
  then have "max (ilog2 \<bar>x\<bar>) (- 1022) = e" using x assms(3) by simp
  then show ?thesis using x assms(4,5) by (simp add: round_double_def Let_def)
qed

lemma round_double_neg:
  "round_double (- x) = (case round_double x of Fin y \<Rightarrow> Fin (- y) | PInf \<Rightarrow> NInf | NInf \<Rightarrow> PInf | NaN \<Rightarrow> NaN)"
  by (simp add: round_double_def Let_def)

lemma round_double_bounded:
  assumes "\<bar>x\<bar> \<le> pow2 k" "- 1022 \<le> k" "k \<le> 1023"
  shows "\<exists>y. round_double x = Fin y \<and> \<bar>y\<bar> \<le> pow2 k"
proof (cases "x = 0")
  case True
  then show ?thesis using pow2_pos[of k] by (simp add: round_double_def)
next
  case False
  define a where "a = \<bar>x\<bar>"
  define e where "e = max (ilog2 a) (- 1022)"
  define q where "q = pow2 (e - 52)"
  define y where "y = of_int (round_half_even (a / q)) * q"
  have a: "0 < a" using False by (simp add: a_def)
  have q: "0 < q" by (simp add: q_def pow2_pos)
  have ek: "e \<le> k"
  proof -
    have "\<not> k < ilog2 a"
    proof
      assume "k < ilog2 a"
      then have "pow2 (k + 1) \<le> pow2 (ilog2 a)" by (intro pow2_mono) simp
      moreover have "pow2 k < pow2 (k + 1)" by (intro pow2_strict_mono) simp
      ultimately show False using ilog2_bounds[OF a] assms(1) by (simp add: a_def)
    qed
    then show ?thesis using assms(2) by (simp add: e_def)
  qed
  define N where "N = (2::int) ^ nat (k - e + 52)"
  have N: "of_int N * q = pow2 k"
  proof -
    have "of_int N = pow2 (k - e + 52)" using ek by (simp add: N_def pow2_def)
    then have "of_int N * q = pow2 (k - e + 52) * pow2 (e - 52)" by (simp add: q_def)
    also have "\<dots> = pow2 ((k - e + 52) + (e - 52))" by (rule pow2_add[symmetric])
    also have "(k - e + 52) + (e - 52) = k" by simp
    finally show ?thesis .
  qed
  have "a / q \<le> of_int N"
  proof -
    have "a \<le> of_int N * q" using assms(1) N by (simp add: a_def)
    then show ?thesis using q by (simp add: field_simps)
  qed
  then have "round_half_even (a / q) \<le> N" by (rule round_half_even_le)
  then have "(of_int (round_half_even (a / q)) :: rat) \<le> of_int N" by (simp only: of_int_le_iff)
  then have yk: "y \<le> pow2 k" using q N unfolding y_def by (metis mult_right_mono less_imp_le)
  have "0 \<le> a / q" using a q by simp
  then have "0 \<le> round_half_even (a / q)" by (rule round_half_even_nonneg)
  then have y0: "0 \<le> y" using q by (simp add: y_def)
  have "pow2 k < pow2 1024" using assms(3) by (intro pow2_strict_mono) simp
  then have lt: "\<not> pow2 1024 \<le> y" using yk by simp
  have "round_double x = Fin (if 0 < x then y else - y)"
    using False lt unfolding round_double_def Let_def y_def q_def e_def a_def by simp
  then show ?thesis using yk y0 by auto
qed

lemma round_double_exact_pos:
  assumes i: "0 < i" "i < 2 ^ 53" and k: "- 1074 \<le> k" "k \<le> 970"
  shows "round_double (of_int i * pow2 k) = Fin (of_int i * pow2 k)"
proof -
  define x where "x = (of_int i :: rat) * pow2 k"
  have x: "0 < x" using i(1) pow2_pos[of k] by (simp add: x_def)
  define e where "e = max (ilog2 x) (- 1022)"
  define q where "q = pow2 (e - 52)"
  have q: "0 < q" by (simp add: q_def pow2_pos)
  have "(of_int i :: rat) < of_int (2 ^ 53)" using i(2) by (simp only: of_int_less_iff)
  then have "x < pow2 53 * pow2 k" using pow2_pos[of k] by (simp add: x_def pow2_def)
  then have xu: "x < pow2 (53 + k)" by (simp add: pow2_add)
  have il: "ilog2 x < 53 + k"
  proof (rule ccontr)
    assume "\<not> ilog2 x < 53 + k"
    then have "pow2 (53 + k) \<le> pow2 (ilog2 x)" by (intro pow2_mono) simp
    then show False using ilog2_bounds[OF x] xu by simp
  qed
  have m: "0 \<le> k - e + 52" using il k(1) by (simp add: e_def)
  define N where "N = i * 2 ^ nat (k - e + 52)"
  have "of_int N * q = of_int i * (pow2 (k - e + 52) * pow2 (e - 52))"
    using m by (simp add: N_def q_def pow2_def)
  also have "pow2 (k - e + 52) * pow2 (e - 52) = pow2 ((k - e + 52) + (e - 52))"
    by (rule pow2_add[symmetric])
  also have "(k - e + 52) + (e - 52) = k" by simp
  finally have Nq: "of_int N * q = x" by (simp add: x_def)
  then have "x / q = of_int N" using q by (simp add: field_simps)
  then have r: "round_half_even (x / q) = N" by (simp add: round_half_even_near)
  have "pow2 (53 + k) \<le> pow2 1024" using k(2) by (intro pow2_mono) simp
  then have lt: "\<not> pow2 1024 \<le> x" using xu by simp
  have "round_double x = Fin x"
    using x lt r Nq unfolding round_double_def Let_def
    by (simp add: e_def[symmetric] q_def[symmetric])
  then show ?thesis by (simp add: x_def)
qed

lemma round_double_exact:
  assumes "\<bar>i\<bar> < 2 ^ 53" "- 1074 \<le> k" "k \<le> 970"
  shows "round_double (of_int i * pow2 k) = Fin (of_int i * pow2 k)"
proof -
  consider "i = 0" | "0 < i" | "i < 0" by linarith
  then show ?thesis
  proof cases
    case 1
    then show ?thesis by (simp add: round_double_def)
  next
    case 2
    then show ?thesis using assms by (intro round_double_exact_pos) simp_all
  next
    case 3
    then have "round_double (of_int (- i) * pow2 k) = Fin (of_int (- i) * pow2 k)"
      using assms by (intro round_double_exact_pos) simp_all
    then have "round_double (- (of_int i * pow2 k)) = Fin (- (of_int i * pow2 k))" by simp
    then show ?thesis by (simp add: round_double_neg split: pyfloat.splits)
  qed
qed

lemma round_double_int: "\<bar>i\<bar> < 2 ^ 53 \<Longrightarrow> round_double (of_int i) = Fin (of_int i)"
  using round_double_exact[of i 0] by (simp add: pow2_def)

lemma float_of_int_exact: "\<bar>i\<bar> < 2 ^ 53 \<Longrightarrow> float_of_int i = Inr (Fin (of_int i))"
  by (simp add: float_of_int_def round_double_int)

lemma int_truediv_2: "\<bar>i\<bar> < 2 ^ 53 \<Longrightarrow> int_truediv i 2 = Inr (Fin (of_int i / 2))"
  using round_double_exact[of i "- 1"] by (simp add: int_truediv_def pow2_def)

lemma int_truediv_4: "\<bar>i\<bar> < 2 ^ 53 \<Longrightarrow> int_truediv i 4 = Inr (Fin (of_int i / 4))"
  using round_double_exact[of i "- 2"] by (simp add: int_truediv_def pow2_def)

lemma rat_trunc_int: "rat_trunc (of_int i) = i"
  by (simp add: rat_trunc_def)


lemma int_avg_same: "\<bar>a\<bar> < 2 ^ 52 \<Longrightarrow> int_avg a a = Inr a"
proof -
  assume h: "\<bar>a\<bar> < 2 ^ 52"
  then have "\<bar>a + a\<bar> < 2 ^ 53" by simp
  then have "int_truediv (a + a) 2 = Inr (Fin (of_int (a + a) / 2))" by (rule int_truediv_2)
  then show ?thesis by (simp add: int_avg_def rat_trunc_int)
qed

section \<open>Rarity score and market value: which fields change\<close>

text \<open>
  C9. For a pet whose genetic code is unset or empty, \<open>calculate_rarity_score\<close> returns
  exactly 0 whatever the pet's speed and endurance: no default genotype and no stat-quality
  bonus is applied.
\<close>

theorem rarity_score_no_code:
  "genetic_code pet = None \<or> genetic_code pet = Some [] \<Longrightarrow> calculate_rarity_score pet = Inr 0"
  by (auto simp: calculate_rarity_score_def)

theorem rarity_score_no_code_witness:
  "(genetic_code ((new_pet 1 1 ''a'' ''g'' ''c'')\<lparr>speed := 100, endurance := 100\<rparr>) = None
     \<or> genetic_code ((new_pet 1 1 ''a'' ''g'' ''c'')\<lparr>speed := 100, endurance := 100\<rparr>) = Some [])
   \<and> calculate_rarity_score ((new_pet 1 1 ''a'' ''g'' ''c'')\<lparr>speed := 100, endurance := 100\<rparr>) = Inr 0"
  using rarity_score_no_code [of "(new_pet 1 1 ''a'' ''g'' ''c'')\<lparr>speed := 100, endurance := 100\<rparr>"]
  by (simp add: new_pet_def)

text \<open>
  C10. \<open>calculate_market_value\<close> changes the pet only when its rarity score is 0: then the
  score and the tier are overwritten with the computed ones before pricing (and when computing
  the score raises, the exception propagates with the pet untouched); when the score is not 0
  the pet is left exactly as it was.
\<close>

theorem market_value_frame:
  "(rarity_score pet \<noteq> 0 \<longrightarrow> fst (calculate_market_value pet) = pet) \<and>
   (rarity_score pet = 0 \<longrightarrow>
      (case calculate_rarity_score pet of
         Inr score \<Rightarrow>
           fst (calculate_market_value pet)
             = pet\<lparr>rarity_score := score, rarity_tier := Some (get_rarity_tier score)\<rparr>
       | Inl e \<Rightarrow> calculate_market_value pet = (pet, Inl e)))"
  by (simp add: calculate_market_value_def Let_def split: sum.splits)


theorem market_value_frame_witness:
  "rarity_score ((new_pet 1 1 ''a'' ''g'' ''c'')\<lparr>rarity_score := 3\<rparr>) \<noteq> 0
   \<and> fst (calculate_market_value ((new_pet 1 1 ''a'' ''g'' ''c'')\<lparr>rarity_score := 3\<rparr>))
       = (new_pet 1 1 ''a'' ''g'' ''c'')\<lparr>rarity_score := 3\<rparr>
   \<and> rarity_score ((new_pet 1 1 ''a'' ''g'' ''c'')\<lparr>rarity_tier := Some ''Rare''\<rparr>) = 0
   \<and> fst (calculate_market_value ((new_pet 1 1 ''a'' ''g'' ''c'')\<lparr>rarity_tier := Some ''Rare''\<rparr>))
       = (new_pet 1 1 ''a'' ''g'' ''c'')\<lparr>rarity_tier := Some ''Common''\<rparr>"
  using market_value_frame [of "(new_pet 1 1 ''a'' ''g'' ''c'')\<lparr>rarity_score := 3\<rparr>"]
    market_value_frame [of "(new_pet 1 1 ''a'' ''g'' ''c'')\<lparr>rarity_tier := Some ''Rare''\<rparr>"]
  by (simp add: new_pet_def calculate_rarity_score_def get_rarity_tier_def)

section \<open>Breeding with a parent that has no genotype\<close>

text \<open>
  C2. When either parent has no genotype entry, \<open>breed\<close> raises \<open>ValueError\<close> and the
  session is exactly what it was: no pet, no genetics row and no offspring record is added.
\<close>

theorem breed_without_genetics:
  "query_pet_genetics d (pet_id parent1) = [] \<or> query_pet_genetics d (pet_id parent2) = []
   \<Longrightarrow> breed d parent1 parent2 child_name child_species child_color oid rnd = (d, Inl ValueError)"
  by (auto simp: breed_def Let_def)


theorem breed_without_genetics_witness:
  "(query_pet_genetics example_db (pet_id (new_pet 1 1 ''Ada'' ''guinea_pig'' ''brown'')) = []
     \<or> query_pet_genetics example_db (pet_id (new_pet 3 1 ''Cy'' ''guinea_pig'' ''white'')) = [])
   \<and> breed example_db (new_pet 1 1 ''Ada'' ''guinea_pig'' ''brown'')
         (new_pet 3 1 ''Cy'' ''guinea_pig'' ''white'') ''Kid'' ''guinea_pig'' ''brown'' 1 (\<lambda>n. n)
       = (example_db, Inl ValueError)"
proof -
  have "query_pet_genetics example_db (pet_id (new_pet 3 1 ''Cy'' ''guinea_pig'' ''white'')) = []"
    by (simp add: query_pet_genetics_def example_db_def new_pet_def)
  then show ?thesis
    using breed_without_genetics [of example_db "new_pet 1 1 ''Ada'' ''guinea_pig'' ''brown''"
        "new_pet 3 1 ''Cy'' ''guinea_pig'' ''white''" "''Kid''" "''guinea_pig''" "''brown''" 1 "\<lambda>n. n"]
    by simp
qed

section \<open>The Punnett square\<close>

lemma sorted_pair_min_max: "join [] (sorted_pair a b) = min a b @ max a b"
  by (auto simp: sorted_pair_def min_def max_def)

lemma count_genotype_keys: "fst ` set (count_genotype cs x) = insert x (fst ` set cs)"
  by (auto simp: count_genotype_def dict_set_def image_iff split: if_splits) force+

lemma count_genotype_bound:
  assumes "\<forall>(g, c) \<in> set cs. 1 \<le> c \<and> c \<le> m" "0 \<le> m"
  shows "\<forall>(g, c) \<in> set (count_genotype cs x). 1 \<le> c \<and> c \<le> m + 1"
proof -
  have g: "0 \<le> dict_get cs x 0 \<and> dict_get cs x 0 \<le> m"
  proof (cases "map_of cs x")
    case None
    then show ?thesis using assms(2) by (simp add: dict_get_def)
  next
    case (Some c)
    then have "(x, c) \<in> set cs" by (rule map_of_SomeD)
    then show ?thesis using assms(1) Some by (auto simp: dict_get_def)
  qed
  show ?thesis
    using assms(1) g by (auto simp: count_genotype_def dict_set_def split: if_splits)
qed

lemma foldl_count_keys: "fst ` set (foldl count_genotype cs gs) = fst ` set cs \<union> set gs"
  by (induction gs arbitrary: cs) (auto simp: count_genotype_keys)

lemma foldl_count_bound:
  "\<forall>(g, c) \<in> set cs. 1 \<le> c \<and> c \<le> m \<Longrightarrow> 0 \<le> m
   \<Longrightarrow> \<forall>(g, c) \<in> set (foldl count_genotype cs gs). 1 \<le> c \<and> c \<le> m + int (length gs)"
proof (induction gs arbitrary: cs m)
  case Nil
  then show ?case by simp
next
  case (Cons x gs)
  have "\<forall>(g, c) \<in> set (count_genotype cs x). 1 \<le> c \<and> c \<le> m + 1"
    using Cons.prems by (rule count_genotype_bound)
  moreover have "0 \<le> m + 1" using Cons.prems(2) by simp
  ultimately have "\<forall>(g, c) \<in> set (foldl count_genotype (count_genotype cs x) gs).
                     1 \<le> c \<and> c \<le> (m + 1) + int (length gs)"
    by (rule Cons.IH)
  then have "\<forall>(g, c) \<in> set (foldl count_genotype cs (x # gs)).
                     1 \<le> c \<and> c \<le> (m + 1) + int (length gs)"
    by simp
  moreover have "(m + 1) + int (length gs) = m + int (length (x # gs))" by simp
  ultimately show ?case by (simp only: foldl_Cons)
qed

lemma float_of_int_100: "float_of_int 100 = Inr (Fin 100)"
  using float_of_int_exact [of 100] by simp

lemma probabilities_of_4:
  "\<forall>(g, c) \<in> set cs. 1 \<le> c \<and> c \<le> 4
   \<Longrightarrow> probabilities_of cs 4 = Inr (map (\<lambda>(g, c). (g, fmul (Fin (of_int c / 4)) (Fin 100))) cs)"
proof (induction cs)
  case Nil
  then show ?case by simp
next
  case (Cons p cs)
  obtain g c where p: "p = (g, c)" by (cases p)
  with Cons.prems have "1 \<le> c" "c \<le> 4" by auto
  then have "\<bar>c\<bar> < 2 ^ 53" by simp
  then have "int_truediv c 4 = Inr (Fin (of_int c / 4))" by (rule int_truediv_4)
  moreover have "probabilities_of cs 4 = Inr (map (\<lambda>(g, c). (g, fmul (Fin (of_int c / 4)) (Fin 100))) cs)"
    using Cons by simp
  ultimately show ?case by (simp add: p float_of_int_100)
qed

lemma count_genotype_fst_distinct:
  "distinct (map fst cs) \<Longrightarrow> distinct (map fst (count_genotype cs x))"
proof -
  assume d: "distinct (map fst cs)"
  have m: "map fst (map (\<lambda>(k', v'). if k' = x then (k', v) else (k', v')) cs) = map fst cs" for v :: int
    by (induction cs) auto
  show ?thesis
  proof (cases "x \<in> fst ` set cs")
    case True
    then show ?thesis using d by (simp add: count_genotype_def dict_set_def m del: map_map)
  next
    case False
    then show ?thesis using d by (simp add: count_genotype_def dict_set_def)
  qed
qed

lemma foldl_count_distinct:
  "distinct (map fst cs) \<Longrightarrow> distinct (map fst (foldl count_genotype cs gs))"
  by (induction gs arbitrary: cs) (simp_all add: count_genotype_fst_distinct)

lemma calculate_returns:
  "calculate (a1, a2) (b1, b2) =
     Inr \<lparr>punnett_square = [[min a1 b1 @ max a1 b1, min a1 b2 @ max a1 b2],
                             [min a2 b1 @ max a2 b1, min a2 b2 @ max a2 b2]],
          possible_offspring =
            map fst (foldl count_genotype []
                       [min a1 b1 @ max a1 b1, min a1 b2 @ max a1 b2,
                        min a2 b1 @ max a2 b1, min a2 b2 @ max a2 b2]),
          probabilities =
            map (\<lambda>(g, c). (g, fmul (Fin (of_int c / 4)) (Fin 100)))
              (foldl count_genotype []
                 [min a1 b1 @ max a1 b1, min a1 b2 @ max a1 b2,
                  min a2 b1 @ max a2 b1, min a2 b2 @ max a2 b2]),
          offspring_genotypes = [min a1 b1 @ max a1 b1, min a1 b2 @ max a1 b2,
                                 min a2 b1 @ max a2 b1, min a2 b2 @ max a2 b2]\<rparr>"
proof -
  define gs where "gs = [min a1 b1 @ max a1 b1, min a1 b2 @ max a1 b2,
                         min a2 b1 @ max a2 b1, min a2 b2 @ max a2 b2]"
  have "\<forall>(g, c) \<in> set (foldl count_genotype [] gs). 1 \<le> c \<and> c \<le> 0 + int (length gs)"
    by (rule foldl_count_bound) simp_all
  then have "\<forall>(g, c) \<in> set (foldl count_genotype [] gs). 1 \<le> c \<and> c \<le> 4"
    by (simp add: gs_def)
  then have "probabilities_of (foldl count_genotype [] gs) 4
             = Inr (map (\<lambda>(g, c). (g, fmul (Fin (of_int c / 4)) (Fin 100))) (foldl count_genotype [] gs))"
    by (rule probabilities_of_4)
  then show ?thesis
    unfolding calculate_def Let_def by (simp add: sorted_pair_min_max gs_def del: foldl.simps)
qed

text \<open>
  C3. For every two pairs of allele symbols, \<open>calculate\<close> returns. Its grid has two rows of
  two cells, four in all, and each cell is the two contributing symbols joined smaller first.
  The flat list of offspring genotype strings is the four cells in grid order; the possible
  offspring are exactly the distinct cells, each listed once, and they are the keys of the
  probability table. With the parents swapped the set of possible offspring genotype strings
  is the same.
\<close>

theorem punnett_calculate:
  "\<exists>res res'.
     calculate (a1, a2) (b1, b2) = Inr res \<and> calculate (b1, b2) (a1, a2) = Inr res' \<and>
     punnett_square res = [[min a1 b1 @ max a1 b1, min a1 b2 @ max a1 b2],
                           [min a2 b1 @ max a2 b1, min a2 b2 @ max a2 b2]] \<and>
     length (concat (punnett_square res)) = 4 \<and>
     offspring_genotypes res = [min a1 b1 @ max a1 b1, min a1 b2 @ max a1 b2,
                                min a2 b1 @ max a2 b1, min a2 b2 @ max a2 b2] \<and>
     set (possible_offspring res) = {min a1 b1 @ max a1 b1, min a1 b2 @ max a1 b2,
                                     min a2 b1 @ max a2 b1, min a2 b2 @ max a2 b2} \<and>
     distinct (possible_offspring res) \<and>
     map fst (probabilities res) = possible_offspring res \<and>
     set (possible_offspring res') = set (possible_offspring res)"
proof -
  let ?gs = "[min a1 b1 @ max a1 b1, min a1 b2 @ max a1 b2,
              min a2 b1 @ max a2 b1, min a2 b2 @ max a2 b2]"
  let ?gs' = "[min b1 a1 @ max b1 a1, min b1 a2 @ max b1 a2,
               min b2 a1 @ max b2 a1, min b2 a2 @ max b2 a2]"
  have keys: "set (map fst (foldl count_genotype [] ?gs)) = set ?gs"
    unfolding set_map foldl_count_keys by simp
  have keys': "set (map fst (foldl count_genotype [] ?gs')) = set ?gs'"
    unfolding set_map foldl_count_keys by simp
  have sw: "set ?gs' = set ?gs" by (auto simp: min.commute max.commute)
  have dist: "distinct (map fst (foldl count_genotype [] ?gs))"
    by (rule foldl_count_distinct) simp
  have pk: "map fst (map (\<lambda>(g, c). (g, fmul (Fin (of_int c / 4)) (Fin 100))) cs) = map fst cs"
    for cs :: "(string \<times> int) list"
    by (induction cs) auto
  have s1: "set (map fst (foldl count_genotype [] ?gs)) =
              {min a1 b1 @ max a1 b1, min a1 b2 @ max a1 b2,
               min a2 b1 @ max a2 b1, min a2 b2 @ max a2 b2}"
    using keys by simp
  have s2: "set (map fst (foldl count_genotype [] ?gs')) = set (map fst (foldl count_genotype [] ?gs))"
    using keys keys' sw by simp
  show ?thesis
    unfolding calculate_returns [of a1 a2 b1 b2] calculate_returns [of b1 b2 a1 a2]
    using s1 s2 dist pk by (simp del: foldl.simps set_map map_map)
qed

section \<open>Phenotype of a homozygous pair\<close>


text \<open>
  Outside the coat-colour gene the effect is \<open>int((e + e) / 2)\<close>, a float average: it is
  the allele's own effect value as long as that value is a binary64 number, and it is not
  beyond: for the effect value \<open>2\<^sup>5\<^sup>3 + 1\<close> the reported effect is \<open>2\<^sup>5\<^sup>3\<close>.
\<close>

lemma get_phenotype_large_effect:
  "get_phenotype (allele_H\<lparr>effect_value := 9007199254740993\<rparr>)
     (allele_H\<lparr>effect_value := 9007199254740993\<rparr>) (Some ''hair_length'')
   = Inr \<lparr>phenotype = ''H/H'', genotype = None, info_effect_value = 9007199254740992,
          inheritance_type = ''co-dominant'', is_pure = None\<rparr>"
proof -
  have "round_double 9007199254740993 = Fin (of_int 4503599627370496 * pow2 (53 - 52))"
  proof (rule round_double_pos)
    show "round_half_even (9007199254740993 / pow2 (53 - 52)) = 4503599627370496"
      by (rule round_half_even_tie_even) (simp_all add: pow2_def)
  qed (simp_all add: pow2_def)
  then have "round_double 9007199254740993 = Fin 9007199254740992" by (simp add: pow2_def)
  moreover have "rat_trunc 9007199254740992 = 9007199254740992"
    using rat_trunc_int [of 9007199254740992] by simp
  ultimately have "int_avg 9007199254740993 9007199254740993 = Inr 9007199254740992"
    by (simp add: int_avg_def int_truediv_def)
  then show ?thesis by (simp add: get_phenotype_def allele_H_def)
qed



section \<open>Splitting and decoding\<close>

lemma split_on_not_Nil: "split_on c s \<noteq> []"
  by (induction s) (auto split: list.splits)

lemma split_on_absent: "c \<notin> set s \<Longrightarrow> split_on c s = [s]"
  by (induction s) auto

lemma split_on_first: "c \<notin> set a \<Longrightarrow> split_on c (a @ c # b) = a # split_on c b"
  by (induction a) auto

lemma length_split_on: "length (split_on c s) = Suc (count_list s c)"
  by (induction s) (auto split: list.splits simp: split_on_not_Nil)

lemma unpack2_pair: "unpack2 [x, y] = Inr (x, y)"
  by (simp add: unpack2_def)

lemma unpack2_other: "length xs \<noteq> 2 \<Longrightarrow> unpack2 xs = Inl ValueError"
  by (auto simp: unpack2_def split: list.splits)

lemma takeWhile_first: "c \<notin> set a \<Longrightarrow> takeWhile (\<lambda>x. x \<noteq> c) (a @ c # b) = a"
  by (induction a) auto

lemma dropWhile_first: "c \<notin> set a \<Longrightarrow> dropWhile (\<lambda>x. x \<noteq> c) (a @ c # b) = c # b"
  by (induction a) auto

lemma split_on_two:
  assumes "count_list s c = 1"
  shows "split_on c s = [takeWhile (\<lambda>x. x \<noteq> c) s, tl (dropWhile (\<lambda>x. x \<noteq> c) s)]"
proof -
  have "c \<in> set s" using assms by (metis count_list_0_iff zero_neq_one)
  then obtain a b where s: "s = a @ c # b" "c \<notin> set a" by (meson split_list_first)
  then have "count_list a c = 0" by (simp add: count_list_0_iff)
  then have "count_list b c = 0" using assms s(1) by simp
  then have "c \<notin> set b" by (simp add: count_list_0_iff)
  then show ?thesis using s by (simp add: split_on_first split_on_absent takeWhile_first dropWhile_first)
qed

lemma decode_pairs_step:
  assumes "CHR '':'' \<in> set seg"
  shows "decode_pairs gs (seg # rest) =
           (if well_formed_segment seg then
              decode_pairs
                (dict_set gs (takeWhile (\<lambda>x. x \<noteq> CHR '':'') seg)
                   (takeWhile (\<lambda>x. x \<noteq> CHR ''-'') (tl (dropWhile (\<lambda>x. x \<noteq> CHR '':'') seg)),
                    tl (dropWhile (\<lambda>x. x \<noteq> CHR ''-'') (tl (dropWhile (\<lambda>x. x \<noteq> CHR '':'') seg)))))
                rest
            else Inl ValueError)"
proof (cases "count_list seg CHR '':'' = 1")
  case True
  define al where "al = tl (dropWhile (\<lambda>x. x \<noteq> CHR '':'') seg)"
  have sp: "split_on CHR '':'' seg = [takeWhile (\<lambda>x. x \<noteq> CHR '':'') seg, al]"
    unfolding al_def using True by (rule split_on_two)
  obtain a b where s: "seg = a @ CHR '':'' # b" "CHR '':'' \<notin> set a"
    using assms by (meson split_list_first)
  then have dw: "dropWhile (\<lambda>x. x \<noteq> CHR '':'') seg = CHR '':'' # al"
    by (simp add: al_def dropWhile_first)
  have wf: "well_formed_segment seg \<longleftrightarrow> count_list al CHR ''-'' = 1"
    using True by (simp add: well_formed_segment_def dw)
  show ?thesis
  proof (cases "count_list al CHR ''-'' = 1")
    case one: True
    have "split_on CHR ''-'' al = [takeWhile (\<lambda>x. x \<noteq> CHR ''-'') al, tl (dropWhile (\<lambda>x. x \<noteq> CHR ''-'') al)]"
      using one by (rule split_on_two)
    then show ?thesis using assms sp wf one by (simp add: unpack2_pair al_def)
  next
    case False
    then have "length (split_on CHR ''-'' al) \<noteq> 2" by (simp add: length_split_on)
    then have "unpack2 (split_on CHR ''-'' al) = Inl ValueError" by (rule unpack2_other)
    then show ?thesis using assms sp wf False by (simp add: unpack2_pair)
  qed
next
  case False
  then have "length (split_on CHR '':'' seg) \<noteq> 2" by (simp add: length_split_on)
  then have "unpack2 (split_on CHR '':'' seg) = Inl ValueError" by (rule unpack2_other)
  then show ?thesis using assms False by (simp add: well_formed_segment_def)
qed

lemma decode_pairs_skip:
  "decode_pairs gs segs = decode_pairs gs (filter (\<lambda>seg. CHR '':'' \<in> set seg) segs)"
proof (induction segs arbitrary: gs)
  case Nil
  then show ?case by simp
next
  case (Cons seg segs)
  show ?case
  proof (cases "CHR '':'' \<in> set seg")
    case True
    then show ?thesis using Cons.IH by (simp add: decode_pairs_step del: decode_pairs.simps)
  next
    case False
    then show ?thesis using Cons.IH by simp
  qed
qed

lemma decode_pairs_returns_iff:
  "(\<exists>d. decode_pairs gs segs = Inr d) \<longleftrightarrow>
   (\<forall>seg \<in> set segs. CHR '':'' \<in> set seg \<longrightarrow> well_formed_segment seg)"
proof (induction segs arbitrary: gs)
  case Nil
  then show ?case by simp
next
  case (Cons seg segs)
  show ?case
  proof (cases "CHR '':'' \<in> set seg")
    case True
    then show ?thesis using Cons.IH by (simp add: decode_pairs_step del: decode_pairs.simps)
  next
    case False
    then show ?thesis using Cons.IH by simp
  qed
qed

lemma decode_pairs_error: "decode_pairs gs segs = Inl e \<Longrightarrow> e = ValueError"
proof (induction segs arbitrary: gs)
  case Nil
  then show ?case by simp
next
  case (Cons seg segs)
  show ?case
  proof (cases "CHR '':'' \<in> set seg")
    case True
    then show ?thesis using Cons by (simp add: decode_pairs_step del: decode_pairs.simps split: if_splits)
  next
    case False
    then show ?thesis using Cons by simp
  qed
qed

text \<open>
  A segment that has a \<open>:\<close> but no \<open>-\<close> is not skipped: unpacking the split of its allele
  part raises.
\<close>

theorem decode_missing_dash_counterexample: "decode ''coat_color:BB'' = Inl ValueError"
  by (simp add: decode_def unpack2_def)

text \<open>
  C4 (amended). \<open>decode\<close> skips every segment that has no \<open>:\<close>, decoding the others as
  usual. It returns normally exactly when each segment that has a \<open>:\<close> has a single \<open>:\<close>
  and a single \<open>-\<close> after it; otherwise it raises \<open>ValueError\<close>.
\<close>

theorem decode_tolerance:
  "decode code = decode_pairs [] (filter (\<lambda>seg. CHR '':'' \<in> set seg) (split_on CHR '';'' code)) \<and>
   ((\<exists>gs. decode code = Inr gs) \<longleftrightarrow>
    (\<forall>seg \<in> set (split_on CHR '';'' code). CHR '':'' \<in> set seg \<longrightarrow> well_formed_segment seg)) \<and>
   ((\<exists>gs. decode code = Inr gs) \<or> decode code = Inl ValueError)"
proof -
  have "decode code = decode_pairs [] (filter (\<lambda>seg. CHR '':'' \<in> set seg) (split_on CHR '';'' code))"
    unfolding decode_def by (rule decode_pairs_skip)
  moreover have "(\<exists>gs. decode code = Inr gs) \<longleftrightarrow>
    (\<forall>seg \<in> set (split_on CHR '';'' code). CHR '':'' \<in> set seg \<longrightarrow> well_formed_segment seg)"
    unfolding decode_def by (rule decode_pairs_returns_iff)
  moreover have "(\<exists>gs. decode code = Inr gs) \<or> decode code = Inl ValueError"
  proof (cases "decode code")
    case (Inl e)
    then show ?thesis using decode_pairs_error [of "[]" "split_on CHR '';'' code" e]
      by (simp add: decode_def)
  next
    case (Inr d)
    then show ?thesis by simp
  qed
  ultimately show ?thesis by blast
qed

theorem decode_tolerance_witness:
  "split_on CHR '';'' ''coat_color:B-B;hair_length:H-h;badseg''
     = [''coat_color:B-B'', ''hair_length:H-h'', ''badseg''] \<and>
   well_formed_segment ''coat_color:B-B'' \<and> well_formed_segment ''hair_length:H-h'' \<and>
   CHR '':'' \<notin> set ''badseg'' \<and>
   decode ''coat_color:B-B;hair_length:H-h;badseg''
     = Inr [(''coat_color'', ''B'', ''B''), (''hair_length'', ''H'', ''h'')] \<and>
   decode_pairs [] (filter (\<lambda>seg. CHR '':'' \<in> set seg)
                      (split_on CHR '';'' ''coat_color:B-B;hair_length:H-h;badseg''))
     = Inr [(''coat_color'', ''B'', ''B''), (''hair_length'', ''H'', ''h'')]"
proof -
  have d: "decode ''coat_color:B-B;hair_length:H-h;badseg''
        = Inr [(''coat_color'', ''B'', ''B''), (''hair_length'', ''H'', ''h'')]"
    by (simp add: decode_def unpack2_def dict_set_def)
  have s: "split_on CHR '';'' ''coat_color:B-B;hair_length:H-h;badseg''
        = [''coat_color:B-B'', ''hair_length:H-h'', ''badseg'']"
    by simp
  have "(\<forall>seg \<in> set (split_on CHR '';'' ''coat_color:B-B;hair_length:H-h;badseg'').
          CHR '':'' \<in> set seg \<longrightarrow> well_formed_segment seg)"
    using decode_tolerance [of "''coat_color:B-B;hair_length:H-h;badseg''"] d by blast
  then have "well_formed_segment ''coat_color:B-B'' \<and> well_formed_segment ''hair_length:H-h''"
    unfolding s by simp
  moreover have "decode_pairs [] (filter (\<lambda>seg. CHR '':'' \<in> set seg)
                      (split_on CHR '';'' ''coat_color:B-B;hair_length:H-h;badseg''))
     = Inr [(''coat_color'', ''B'', ''B''), (''hair_length'', ''H'', ''h'')]"
    using decode_tolerance [of "''coat_color:B-B;hair_length:H-h;badseg''"] d by simp
  ultimately show ?thesis using d s by simp
qed

section \<open>Encoding then decoding\<close>

lemma encode_entries_of:
  "map entry_of pgs = map Some g \<Longrightarrow>
   encode_entries pgs = Inr (map (\<lambda>(n, a, b). n @ '':'' @ a @ ''-'' @ b) g)"
proof (induction pgs arbitrary: g)
  case Nil
  then show ?case by simp
next
  case (Cons pg pgs)
  then obtain e g' where g: "g = e # g'" "entry_of pg = Some e" "map entry_of pgs = map Some g'"
    by (cases g) auto
  obtain n a b where e: "e = (n, a, b)" by (cases e)
  from g(2) e have "encode_entry pg = Inr (n @ '':'' @ a @ ''-'' @ b)"
    by (auto simp: entry_of_def encode_entry_def split: option.splits)
  then show ?case using Cons.IH [OF g(3)] g(1) e by simp
qed

lemma split_on_join:
  "codes \<noteq> [] \<Longrightarrow> \<forall>c \<in> set codes. CHR '';'' \<notin> set c \<Longrightarrow> split_on CHR '';'' (join '';'' codes) = codes"
proof (induction "'';''" codes rule: join.induct)
  case 1
  then show ?case by simp
next
  case (2 x)
  then show ?case by (simp add: split_on_absent)
next
  case (3 x y ys)
  then have "split_on CHR '';'' (join '';'' (y # ys)) = y # ys" by simp
  moreover have "CHR '';'' \<notin> set x" using 3 by simp
  ultimately show ?case by (simp add: split_on_first)
qed

lemma decode_entry:
  assumes "well_formed_entry (n, a, b)"
  shows "CHR '':'' \<in> set (n @ '':'' @ a @ ''-'' @ b)"
    and "CHR '';'' \<notin> set (n @ '':'' @ a @ ''-'' @ b)"
    and "unpack2 (split_on CHR '':'' (n @ '':'' @ a @ ''-'' @ b)) = Inr (n, a @ ''-'' @ b)"
    and "unpack2 (split_on CHR ''-'' (a @ ''-'' @ b)) = Inr (a, b)"
proof -
  from assms have n: "CHR '':'' \<notin> set n" "CHR '';'' \<notin> set n"
    and a: "CHR '':'' \<notin> set a" "CHR '';'' \<notin> set a" "CHR ''-'' \<notin> set a"
    and b: "CHR '':'' \<notin> set b" "CHR '';'' \<notin> set b" "CHR ''-'' \<notin> set b"
    by (auto simp: well_formed_entry_def delimiters_def)
  show "CHR '':'' \<in> set (n @ '':'' @ a @ ''-'' @ b)" by simp
  show "CHR '';'' \<notin> set (n @ '':'' @ a @ ''-'' @ b)" using n a b by simp
  have "CHR '':'' \<notin> set (a @ ''-'' @ b)" using a b by simp
  then have "split_on CHR '':'' (a @ ''-'' @ b) = [a @ ''-'' @ b]" by (rule split_on_absent)
  moreover have "split_on CHR '':'' (n @ CHR '':'' # (a @ ''-'' @ b)) = n # split_on CHR '':'' (a @ ''-'' @ b)"
    using n(1) by (rule split_on_first)
  ultimately have "split_on CHR '':'' (n @ CHR '':'' # (a @ ''-'' @ b)) = [n, a @ ''-'' @ b]"
    by simp
  then show "unpack2 (split_on CHR '':'' (n @ '':'' @ a @ ''-'' @ b)) = Inr (n, a @ ''-'' @ b)"
    by (simp add: unpack2_pair)
  have "split_on CHR ''-'' b = [b]" using b(3) by (rule split_on_absent)
  moreover have "split_on CHR ''-'' (a @ CHR ''-'' # b) = a # split_on CHR ''-'' b"
    using a(3) by (rule split_on_first)
  ultimately have "split_on CHR ''-'' (a @ CHR ''-'' # b) = [a, b]"
    by simp
  then show "unpack2 (split_on CHR ''-'' (a @ ''-'' @ b)) = Inr (a, b)"
    by (simp add: unpack2_pair)
qed

lemma decode_pairs_entries:
  "list_all well_formed_entry g \<Longrightarrow> distinct (map fst g) \<Longrightarrow> fst ` set acc \<inter> fst ` set g = {}
   \<Longrightarrow> decode_pairs acc (map (\<lambda>(n, a, b). n @ '':'' @ a @ ''-'' @ b) g) = Inr (acc @ g)"
proof (induction g arbitrary: acc)
  case Nil
  then show ?case by simp
next
  case (Cons e g)
  obtain n a b where e: "e = (n, a, b)" by (cases e)
  have wf: "well_formed_entry (n, a, b)" using Cons.prems(1) e by simp
  have fresh: "n \<notin> fst ` set acc" using Cons.prems(3) e by auto
  then have ds: "dict_set acc n (a, b) = acc @ [(n, a, b)]" by (simp add: dict_set_def)
  have "fst ` set (acc @ [(n, a, b)]) \<inter> fst ` set g = {}"
    using Cons.prems(2,3) e by auto
  moreover have "list_all well_formed_entry g" "distinct (map fst g)" using Cons.prems by simp_all
  ultimately have "decode_pairs (acc @ [(n, a, b)]) (map (\<lambda>(n, a, b). n @ '':'' @ a @ ''-'' @ b) g)
                   = Inr ((acc @ [(n, a, b)]) @ g)"
    by (intro Cons.IH)
  then show ?case
    using decode_entry [OF wf] ds by (simp add: e del: append_assoc)
qed

text \<open>
  With an allele symbol that is itself a delimiter the round trip fails: the pair
  \<open>-\<close>/\<open>a\<close> of gene \<open>g\<close> is encoded as \<open>g:--a\<close>, which \<open>decode\<close> rejects.
\<close>

theorem roundtrip_dash_counterexample:
  "encode [\<lparr>pg_pet_id = 1, pg_gene_id = 1, allele1_id = 1, allele2_id = 2,
            gene = Some \<lparr>gene_id_of = 1, gene_name = ''g'', trait = ''t''\<rparr>,
            allele1 = Some \<lparr>allele_id = 1, allele_gene_id = 1, allele_name = ''x'', symbol = ''-'',
                             dominance_level = 1, effect_value = 0\<rparr>,
            allele2 = Some \<lparr>allele_id = 2, allele_gene_id = 1, allele_name = ''y'', symbol = ''a'',
                             dominance_level = 1, effect_value = 0\<rparr>\<rparr>] = Inr ''g:--a''
   \<and> decode ''g:--a'' = Inl ValueError"
  by (simp add: encode_def encode_entry_def decode_def unpack2_def)

text \<open>
  C1 (amended). For every genotype whose entries have distinct gene names free of \<open>:\<close>,
  \<open>;\<close> and \<open>-\<close> and two one-character allele symbols, neither of them \<open>:\<close>, \<open>;\<close> or \<open>-\<close>,
  decoding the string that \<open>encode\<close> produces gives back the same entries (in the same
  order, hence the same gene-to-allele-pair content).
\<close>

theorem encode_decode_roundtrip:
  assumes "map entry_of pgs = map Some g"
    and "list_all well_formed_entry g"
    and "distinct (map fst g)"
  shows "\<exists>code. encode pgs = Inr code \<and> decode code = Inr g \<and>
                (\<forall>d. decode code = Inr d \<longrightarrow> map_of d = map_of g)"
proof -
  define codes where "codes = map (\<lambda>(n, a, b). n @ '':'' @ a @ ''-'' @ b) g"
  have enc: "encode pgs = Inr (join '';'' codes)"
    using encode_entries_of [OF assms(1)] by (simp add: encode_def codes_def)
  have "decode (join '';'' codes) = Inr g"
  proof (cases g)
    case Nil
    then show ?thesis by (simp add: codes_def decode_def)
  next
    case (Cons e g')
    then have ne: "codes \<noteq> []" by (simp add: codes_def)
    have "\<forall>c \<in> set codes. CHR '';'' \<notin> set c"
    proof
      fix c assume "c \<in> set codes"
      then obtain n a b where "(n, a, b) \<in> set g" "c = n @ '':'' @ a @ ''-'' @ b"
        by (auto simp: codes_def)
      moreover from this assms(2) have "well_formed_entry (n, a, b)" by (auto simp: list_all_iff)
      ultimately show "CHR '';'' \<notin> set c" using decode_entry(2) by blast
    qed
    then have "split_on CHR '';'' (join '';'' codes) = codes" using ne by (intro split_on_join)
    moreover have "decode_pairs [] codes = Inr ([] @ g)"
      unfolding codes_def using assms(2,3) by (intro decode_pairs_entries) simp_all
    ultimately show ?thesis by (simp add: decode_def)
  qed
  then show ?thesis using enc by auto
qed


theorem encode_decode_roundtrip_witness:
  "map entry_of (query_pet_genetics example_db 1)
     = map Some [(''coat_color'', ''B'', ''B''), (''speed'', ''F'', ''f'')] \<and>
   list_all well_formed_entry [(''coat_color'', ''B'', ''B''), (''speed'', ''F'', ''f'')] \<and>
   distinct (map fst [(''coat_color'', ''B'', ''B''), (''speed'', ''F'', ''f'')]) \<and>
   encode (query_pet_genetics example_db 1) = Inr ''coat_color:B-B;speed:F-f'' \<and>
   decode ''coat_color:B-B;speed:F-f'' = Inr [(''coat_color'', ''B'', ''B''), (''speed'', ''F'', ''f'')]"
proof -
  have q: "query_pet_genetics example_db 1 =
             [\<lparr>pg_pet_id = 1, pg_gene_id = 1, allele1_id = 1, allele2_id = 1,
               gene = Some gene_coat_color, allele1 = Some allele_B,
               allele2 = Some allele_B\<rparr>,
              \<lparr>pg_pet_id = 1, pg_gene_id = 3, allele1_id = 6, allele2_id = 7,
               gene = Some gene_speed, allele1 = Some allele_F,
               allele2 = Some allele_f\<rparr>]"
    by (simp add: query_pet_genetics_def example_db_def load_pet_genetics_def
        seeded_genes_def seeded_alleles_def catalog_defs)
  have h1: "map entry_of (query_pet_genetics example_db 1)
              = map Some [(''coat_color'', ''B'', ''B''), (''speed'', ''F'', ''f'')]"
    by (simp add: q entry_of_def catalog_defs)
  have h2: "list_all well_formed_entry [(''coat_color'', ''B'', ''B''), (''speed'', ''F'', ''f'')]"
    by (simp add: well_formed_entry_def delimiters_def)
  have h3: "distinct (map fst [(''coat_color'', ''B'', ''B''), (''speed'', ''F'', ''f'')])"
    by simp
  have e: "encode (query_pet_genetics example_db 1) = Inr ''coat_color:B-B;speed:F-f''"
    by (simp add: q encode_def encode_entry_def catalog_defs)
  show ?thesis
    using encode_decode_roundtrip [OF h1 h2 h3] h1 h2 h3 e by auto
qed

section \<open>Offspring genotype entries pair alleles of one gene\<close>

lemma query_allele_Some:
  "query_allele d gid s = Some x \<Longrightarrow> x \<in> set (alleles d) \<and> allele_gene_id x = gid \<and> symbol x = s"
  by (auto simp: query_allele_def find_Some_iff)

lemma dict_set_same_gene:
  assumes "\<forall>(gid, x, y) \<in> set oa. x \<in> A \<and> y \<in> A \<and> allele_gene_id x = gid \<and> allele_gene_id y = gid"
    and "x' \<in> A" "y' \<in> A" "allele_gene_id x' = g" "allele_gene_id y' = g"
  shows "\<forall>(gid, x, y) \<in> set (dict_set oa g (x', y')).
           x \<in> A \<and> y \<in> A \<and> allele_gene_id x = gid \<and> allele_gene_id y = gid"
  using assms by (auto simp: dict_set_def split: if_splits)

lemma breed_gene_skip:
  "pg_gene_id (fst pp) \<noteq> pg_gene_id (snd pp) \<Longrightarrow> breed_gene d n1 n2 rnd acc pp = Inr acc"
  by (simp add: breed_gene_def Let_def)

lemma breed_gene_same_gene:
  assumes "breed_gene d n1 n2 rnd acc pp = Inr acc'"
    and "\<forall>(gid, x, y) \<in> set (offspring_alleles acc).
           x \<in> set (alleles d) \<and> y \<in> set (alleles d) \<and> allele_gene_id x = gid \<and> allele_gene_id y = gid"
  shows "\<forall>(gid, x, y) \<in> set (offspring_alleles acc').
           x \<in> set (alleles d) \<and> y \<in> set (alleles d) \<and> allele_gene_id x = gid \<and> allele_gene_id y = gid"
proof (cases "pg_gene_id (fst pp) \<noteq> pg_gene_id (snd pp)")
  case True
  then have "acc' = acc" using assms(1) by (simp add: breed_gene_skip)
  then show ?thesis using assms(2) by simp
next
  case False
  from assms(1) False obtain a11 a12 a21 a22 res g s0 s1 where
    f: "allele1 (fst pp) = Some a11" "allele2 (fst pp) = Some a12"
       "allele1 (snd pp) = Some a21" "allele2 (snd pp) = Some a22"
       "calculate (symbol a11, symbol a12) (symbol a21, symbol a22) = Inr res"
       "gene (fst pp) = Some g"
       "first_two (random_choice (offspring_genotypes res) (rnd (draws acc))) = Inr (s0, s1)"
    by (auto simp: breed_gene_def Let_def split: option.split_asm sum.split_asm prod.split_asm)
  have oa: "offspring_alleles acc' =
           (case (query_allele d (gene_id_of g) s0, query_allele d (gene_id_of g) s1) of
              (Some x, Some y) \<Rightarrow> dict_set (offspring_alleles acc) (gene_id_of g) (x, y)
            | _ \<Rightarrow> offspring_alleles acc)"
    using assms(1) False f by (auto simp: breed_gene_def Let_def)
  show ?thesis
  proof (cases "query_allele d (gene_id_of g) s0")
    case None
    then show ?thesis using oa assms(2) by simp
  next
    case x: (Some x)
    show ?thesis
    proof (cases "query_allele d (gene_id_of g) s1")
      case None
      then show ?thesis using oa x assms(2) by simp
    next
      case y: (Some y)
      have "offspring_alleles acc' = dict_set (offspring_alleles acc) (gene_id_of g) (x, y)"
        using oa x y by simp
      moreover have "\<forall>(gid, a, b) \<in> set (dict_set (offspring_alleles acc) (gene_id_of g) (x, y)).
           a \<in> set (alleles d) \<and> b \<in> set (alleles d) \<and> allele_gene_id a = gid \<and> allele_gene_id b = gid"
        using assms(2) query_allele_Some [OF x] query_allele_Some [OF y]
        by (intro dict_set_same_gene) simp_all
      ultimately show ?thesis by simp
    qed
  qed
qed

lemma breed_loop_same_gene:
  "breed_loop d n1 n2 rnd acc pps = Inr acc' \<Longrightarrow>
   \<forall>(gid, x, y) \<in> set (offspring_alleles acc).
      x \<in> set (alleles d) \<and> y \<in> set (alleles d) \<and> allele_gene_id x = gid \<and> allele_gene_id y = gid \<Longrightarrow>
   \<forall>(gid, x, y) \<in> set (offspring_alleles acc').
      x \<in> set (alleles d) \<and> y \<in> set (alleles d) \<and> allele_gene_id x = gid \<and> allele_gene_id y = gid"
proof (induction pps arbitrary: acc)
  case Nil
  then show ?case by simp
next
  case (Cons pp pps)
  from Cons.prems(1) obtain acc1 where
    s: "breed_gene d n1 n2 rnd acc pp = Inr acc1" "breed_loop d n1 n2 rnd acc1 pps = Inr acc'"
    by (auto split: sum.splits)
  have "\<forall>(gid, x, y) \<in> set (offspring_alleles acc1).
      x \<in> set (alleles d) \<and> y \<in> set (alleles d) \<and> allele_gene_id x = gid \<and> allele_gene_id y = gid"
    using s(1) Cons.prems(2) by (rule breed_gene_same_gene)
  with s(2) show ?case by (rule Cons.IH)
qed

lemma breed_loop_skip:
  "breed_loop d n1 n2 rnd acc pps
   = breed_loop d n1 n2 rnd acc (filter (\<lambda>pp. pg_gene_id (fst pp) = pg_gene_id (snd pp)) pps)"
  by (induction pps arbitrary: acc) (auto simp: breed_gene_skip split: sum.splits)

lemma pet_genetics_store_pet: "pet_genetics (store_pet d p) = pet_genetics d"
  by (simp add: store_pet_def)

lemma breed_rows:
  "pet_genetics (fst (breed d p1 p2 cn cs cc oid rnd)) =
     (if query_pet_genetics d (pet_id p1) = [] \<or> query_pet_genetics d (pet_id p2) = [] then pet_genetics d
      else case breed_loop d (pet_name p1) (pet_name p2) rnd
                  \<lparr>punnett_squares = [], offspring_alleles = [], inheritance_note_list = [], draws = 0\<rparr>
                  (zip (query_pet_genetics d (pet_id p1)) (query_pet_genetics d (pet_id p2))) of
             Inl e \<Rightarrow> pet_genetics d
           | Inr acc \<Rightarrow> pet_genetics d @ map (genetics_row (next_pet_id d)) (offspring_alleles acc))"
  by (auto simp: breed_def Let_def pet_genetics_store_pet new_pet_def split: sum.splits prod.splits)

text \<open>
  C8. Every genetics row that \<open>breed\<close> creates for the offspring references two alleles of
  the catalog that both belong to the row's gene. A position where the parents' entries
  reference different genes leaves the loop state as it was (no alleles, no Punnett record, no
  note, no draw), so the loop over all positions is the loop over the matching ones.
\<close>

theorem breed_pairs_same_gene:
  "(pet_genetics (fst (breed d p1 p2 cn cs cc oid rnd)) = pet_genetics d @ rows \<longrightarrow>
      (\<forall>r \<in> set rows. \<exists>x y. x \<in> set (alleles d) \<and> y \<in> set (alleles d) \<and>
                            row_allele1_id r = allele_id x \<and> row_allele2_id r = allele_id y \<and>
                            allele_gene_id x = row_gene_id r \<and> allele_gene_id y = row_gene_id r)) \<and>
   (pg_gene_id (fst pp) \<noteq> pg_gene_id (snd pp) \<longrightarrow> breed_gene d n1 n2 rnd acc pp = Inr acc) \<and>
   breed_loop d n1 n2 rnd acc pps
     = breed_loop d n1 n2 rnd acc (filter (\<lambda>pp. pg_gene_id (fst pp) = pg_gene_id (snd pp)) pps)"
proof (intro conjI impI ballI)
  fix r
  assume eq: "pet_genetics (fst (breed d p1 p2 cn cs cc oid rnd)) = pet_genetics d @ rows"
    and r: "r \<in> set rows"
  let ?loop = "breed_loop d (pet_name p1) (pet_name p2) rnd
                  \<lparr>punnett_squares = [], offspring_alleles = [], inheritance_note_list = [], draws = 0\<rparr>
                  (zip (query_pet_genetics d (pet_id p1)) (query_pet_genetics d (pet_id p2)))"
  from eq r obtain acc' where l: "?loop = Inr acc'"
    and rows: "rows = map (genetics_row (next_pet_id d)) (offspring_alleles acc')"
    by (auto simp: breed_rows split: if_splits sum.splits)
  have "\<forall>(gid, x, y) \<in> set (offspring_alleles acc').
      x \<in> set (alleles d) \<and> y \<in> set (alleles d) \<and> allele_gene_id x = gid \<and> allele_gene_id y = gid"
    using l by (rule breed_loop_same_gene) simp
  moreover from r rows obtain gid x y where m: "(gid, x, y) \<in> set (offspring_alleles acc')"
    "r = genetics_row (next_pet_id d) (gid, x, y)" by auto
  ultimately have "x \<in> set (alleles d) \<and> y \<in> set (alleles d) \<and>
                   allele_gene_id x = gid \<and> allele_gene_id y = gid"
    by auto
  then have "x \<in> set (alleles d) \<and> y \<in> set (alleles d) \<and>
             row_allele1_id r = allele_id x \<and> row_allele2_id r = allele_id y \<and>
             allele_gene_id x = row_gene_id r \<and> allele_gene_id y = row_gene_id r"
    using m(2) by (simp add: genetics_row_def)
  then show "\<exists>x y. x \<in> set (alleles d) \<and> y \<in> set (alleles d) \<and>
                            row_allele1_id r = allele_id x \<and> row_allele2_id r = allele_id y \<and>
                            allele_gene_id x = row_gene_id r \<and> allele_gene_id y = row_gene_id r"
    by blast
next
  assume "pg_gene_id (fst pp) \<noteq> pg_gene_id (snd pp)"
  then show "breed_gene d n1 n2 rnd acc pp = Inr acc" by (rule breed_gene_skip)
next
  show "breed_loop d n1 n2 rnd acc pps
     = breed_loop d n1 n2 rnd acc (filter (\<lambda>pp. pg_gene_id (fst pp) = pg_gene_id (snd pp)) pps)"
    by (rule breed_loop_skip)
qed


lemma example_parents:
  "query_pet_genetics example_db 1 =
     [\<lparr>pg_pet_id = 1, pg_gene_id = 1, allele1_id = 1, allele2_id = 1,
       gene = Some gene_coat_color, allele1 = Some allele_B,
       allele2 = Some allele_B\<rparr>,
      \<lparr>pg_pet_id = 1, pg_gene_id = 3, allele1_id = 6, allele2_id = 7,
       gene = Some gene_speed, allele1 = Some allele_F,
       allele2 = Some allele_f\<rparr>]"
  "query_pet_genetics example_db 2 =
     [\<lparr>pg_pet_id = 2, pg_gene_id = 1, allele1_id = 1, allele2_id = 2,
       gene = Some gene_coat_color, allele1 = Some allele_B,
       allele2 = Some allele_O\<rparr>,
      \<lparr>pg_pet_id = 2, pg_gene_id = 4, allele1_id = 8, allele2_id = 9,
       gene = Some gene_endurance, allele1 = Some allele_E,
       allele2 = Some allele_e\<rparr>]"
  by (simp_all add: query_pet_genetics_def example_db_def load_pet_genetics_def
      seeded_genes_def seeded_alleles_def catalog_defs)

lemma example_loop:
  "\<exists>acc. breed_loop example_db ''Ada'' ''Bob'' (\<lambda>n. 5)
            \<lparr>punnett_squares = [], offspring_alleles = [], inheritance_note_list = [], draws = 0\<rparr>
            (zip (query_pet_genetics example_db 1) (query_pet_genetics example_db 2)) = Inr acc \<and>
         offspring_alleles acc = [(1, allele_B, allele_O)]"
proof -
  have "\<exists>probs. calculate (''B'', ''B'') (''B'', ''O'') =
     Inr \<lparr>punnett_square = [[''BB'', ''BO''], [''BB'', ''BO'']],
          possible_offspring = map fst (foldl count_genotype [] [''BB'', ''BO'', ''BB'', ''BO'']),
          probabilities = probs,
          offspring_genotypes = [''BB'', ''BO'', ''BB'', ''BO'']\<rparr>"
    unfolding calculate_returns [of "''B''" "''B''" "''B''" "''O''"]
    by (simp add: min_def max_def del: foldl.simps)
  then obtain probs where c: "calculate (''B'', ''B'') (''B'', ''O'') =
     Inr \<lparr>punnett_square = [[''BB'', ''BO''], [''BB'', ''BO'']],
          possible_offspring = map fst (foldl count_genotype [] [''BB'', ''BO'', ''BB'', ''BO'']),
          probabilities = probs,
          offspring_genotypes = [''BB'', ''BO'', ''BB'', ''BO'']\<rparr>"
    by blast
  have q0: "query_allele example_db 1 ''B'' = Some allele_B"
    and q1: "query_allele example_db 1 ''O'' = Some allele_O"
    by (simp_all add: query_allele_def example_db_def seeded_alleles_def catalog_defs)
  have sy: "symbol allele_B = ''B''" "symbol allele_O = ''O''"
    "gene_id_of gene_coat_color = 1"
    by (simp_all add: catalog_defs)
  let ?acc0 = "\<lparr>punnett_squares = [], offspring_alleles = [], inheritance_note_list = [], draws = 0\<rparr>"
  let ?p1 = "\<lparr>pg_pet_id = 1, pg_gene_id = 1, allele1_id = 1, allele2_id = 1,
       gene = Some gene_coat_color, allele1 = Some allele_B,
       allele2 = Some allele_B\<rparr>"
  let ?p2 = "\<lparr>pg_pet_id = 2, pg_gene_id = 1, allele1_id = 1, allele2_id = 2,
       gene = Some gene_coat_color, allele1 = Some allele_B,
       allele2 = Some allele_O\<rparr>"
  have "\<exists>acc1. breed_gene example_db ''Ada'' ''Bob'' (\<lambda>n. 5) ?acc0 (?p1, ?p2) = Inr acc1 \<and>
          offspring_alleles acc1 = [(1, allele_B, allele_O)]"
    by (simp add: breed_gene_def Let_def sy c random_choice_def first_two_def q0 q1 dict_set_def
        del: foldl.simps)
  then obtain acc1 where
    g1: "breed_gene example_db ''Ada'' ''Bob'' (\<lambda>n. 5) ?acc0 (?p1, ?p2) = Inr acc1"
    and o1: "offspring_alleles acc1 = [(1, allele_B, allele_O)]"
    by blast
  show ?thesis
    by (simp add: example_parents g1 o1 breed_gene_skip)
qed

theorem breed_pairs_same_gene_witness:
  "pet_genetics (fst (breed example_db (new_pet 1 1 ''Ada'' ''guinea_pig'' ''brown'')
                        (new_pet 2 1 ''Bob'' ''guinea_pig'' ''orange'')
                        ''Kid'' ''guinea_pig'' ''brown'' 1 (\<lambda>n. 5)))
     = pet_genetics example_db @
         [\<lparr>row_pet_id = 4, row_gene_id = 1, row_allele1_id = 1, row_allele2_id = 2\<rparr>] \<and>
   (\<exists>x y. x \<in> set (alleles example_db) \<and> y \<in> set (alleles example_db) \<and>
          allele_id x = 1 \<and> allele_id y = 2 \<and> allele_gene_id x = 1 \<and> allele_gene_id y = 1) \<and>
   pg_gene_id (query_pet_genetics example_db 1 ! 1) \<noteq> pg_gene_id (query_pet_genetics example_db 2 ! 1) \<and>
   breed_gene example_db ''Ada'' ''Bob'' (\<lambda>n. 5)
       \<lparr>punnett_squares = [], offspring_alleles = [], inheritance_note_list = [], draws = 0\<rparr>
       (query_pet_genetics example_db 1 ! 1, query_pet_genetics example_db 2 ! 1)
     = Inr \<lparr>punnett_squares = [], offspring_alleles = [], inheritance_note_list = [], draws = 0\<rparr>"
proof -
  let ?row = "\<lparr>row_pet_id = 4, row_gene_id = 1, row_allele1_id = 1, row_allele2_id = 2\<rparr>"
  let ?acc0 = "\<lparr>punnett_squares = [], offspring_alleles = [], inheritance_note_list = [], draws = 0\<rparr>"
  obtain acc where l: "breed_loop example_db ''Ada'' ''Bob'' (\<lambda>n. 5) ?acc0
            (zip (query_pet_genetics example_db 1) (query_pet_genetics example_db 2)) = Inr acc"
    and oa: "offspring_alleles acc = [(1, allele_B, allele_O)]"
    using example_loop by blast
  have n: "next_pet_id example_db = 4"
    by (simp add: next_pet_id_def example_db_def new_pet_def)
  have rows: "pet_genetics (fst (breed example_db (new_pet 1 1 ''Ada'' ''guinea_pig'' ''brown'')
                        (new_pet 2 1 ''Bob'' ''guinea_pig'' ''orange'')
                        ''Kid'' ''guinea_pig'' ''brown'' 1 (\<lambda>n. 5)))
     = pet_genetics example_db @ [?row]"
    unfolding breed_rows
    using l oa n by (simp add: new_pet_def example_parents genetics_row_def catalog_defs)
  have ne: "pg_gene_id (query_pet_genetics example_db 1 ! 1)
            \<noteq> pg_gene_id (query_pet_genetics example_db 2 ! 1)"
    by (simp add: example_parents)
  note t = breed_pairs_same_gene [of example_db "new_pet 1 1 ''Ada'' ''guinea_pig'' ''brown''"
      "new_pet 2 1 ''Bob'' ''guinea_pig'' ''orange''" "''Kid''" "''guinea_pig''" "''brown''" 1
      "\<lambda>n. 5" "[?row]"
      "(query_pet_genetics example_db 1 ! 1, query_pet_genetics example_db 2 ! 1)"
      "''Ada''" "''Bob''" ?acc0]
  have "\<exists>x y. x \<in> set (alleles example_db) \<and> y \<in> set (alleles example_db) \<and>
          allele_id x = 1 \<and> allele_id y = 2 \<and> allele_gene_id x = 1 \<and> allele_gene_id y = 1"
    using t rows by simp
  moreover have "breed_gene example_db ''Ada'' ''Bob'' (\<lambda>n. 5) ?acc0
       (query_pet_genetics example_db 1 ! 1, query_pet_genetics example_db 2 ! 1) = Inr ?acc0"
    using t ne by simp
  ultimately show ?thesis using rows ne by simp
qed

section \<open>Market value\<close>









lemma f_0_7_bound: "\<exists>c. f_0_7 = Fin c \<and> \<bar>c\<bar> \<le> 1"
  using round_double_bounded [of "7 / 10" 0] by (simp add: f_0_7_def pow2_def)

lemma fmul_bounded:
  assumes "\<bar>x\<bar> \<le> pow2 j" "\<bar>y\<bar> \<le> pow2 k" "- 1022 \<le> j + k" "j + k \<le> 1023"
  shows "\<exists>z. fmul (Fin x) (Fin y) = Fin z \<and> \<bar>z\<bar> \<le> pow2 (j + k)"
proof -
  have "\<bar>x * y\<bar> \<le> pow2 j * pow2 k"
    unfolding abs_mult using assms(1,2) by (intro mult_mono) simp_all
  then have "\<bar>x * y\<bar> \<le> pow2 (j + k)" by (simp add: pow2_add)
  then show ?thesis using assms(3,4) by (simp add: round_double_bounded)
qed

lemma fadd_bounded:
  assumes "\<bar>x\<bar> \<le> pow2 k" "\<bar>y\<bar> \<le> pow2 k" "- 1022 \<le> k + 1" "k + 1 \<le> 1023"
  shows "\<exists>z. fadd (Fin x) (Fin y) = Fin z \<and> \<bar>z\<bar> \<le> pow2 (k + 1)"
proof -
  have "pow2 (k + 1) = pow2 k * pow2 1" by (rule pow2_add)
  moreover have "pow2 1 = 2" by (simp add: pow2_def)
  ultimately have "pow2 (k + 1) = 2 * pow2 k" by simp
  then have "\<bar>x + y\<bar> \<le> pow2 (k + 1)" using assms(1,2) by linarith
  then show ?thesis using assms(3,4) by (simp add: round_double_bounded)
qed














section \<open>Stats from genetics\<close>

lemma f_0_7_value: "f_0_7 = Fin (3152519739159347 / 4503599627370496)"
proof -
  have "round_double (7 / 10) = Fin (of_int 6305039478318694 * pow2 (- 1 - 52))"
  proof (rule round_double_pos)
    show "round_half_even (7 / 10 / pow2 (- 1 - 52)) = 6305039478318694"
      by (rule round_half_even_near) (simp add: pow2_def)
  qed (simp_all add: pow2_def)
  then show ?thesis by (simp add: f_0_7_def pow2_def)
qed

lemma stat_modifiers_sum:
  "map pg_effect pgs = map Inr effs \<Longrightarrow>
   stat_modifiers (sp, en) pgs =
     Inr (sp + sum_list (map snd (filter (\<lambda>te. routed speed_traits (fst te)) effs)),
          en + sum_list (map snd (filter (\<lambda>te. routed endurance_traits (fst te)) effs)))"
proof (induction pgs arbitrary: sp en effs)
  case Nil
  then show ?case by simp
next
  case (Cons pg pgs)
  then obtain te effs' where e: "effs = te # effs'" "pg_effect pg = Inr te"
    "map pg_effect pgs = map Inr effs'"
    by (cases effs) auto
  obtain t ev where te: "te = (t, ev)" by (cases te)
  show ?case using Cons.IH [OF e(3)] e(1,2) te by simp
qed

lemma random_randint_range: "- 5 \<le> random_randint (- 5) 5 n \<and> random_randint (- 5) 5 n \<le> 5"
proof -
  have "n mod 11 < 11" by simp
  then show ?thesis by (simp add: random_randint_def)
qed

lemma derive_stat_value:
  assumes "\<bar>m\<bar> < 2 ^ 53" "\<bar>r\<bar> \<le> 5"
  shows "\<exists>x. fadd (fadd (Fin 50) (fmul (Fin (of_int m)) f_0_7)) (Fin (of_int r)) = Fin x \<and>
             derive_stat m r = Inr (rat_trunc x)"
proof -
  have fm: "float_of_int m = Inr (Fin (of_int m))" using assms(1) by (rule float_of_int_exact)
  have fr: "float_of_int r = Inr (Fin (of_int r))" using assms(2) by (intro float_of_int_exact) simp
  obtain c where c: "f_0_7 = Fin c" "\<bar>c\<bar> \<le> 1" using f_0_7_bound by blast
  have "\<bar>(of_int m :: rat)\<bar> \<le> of_int (2 ^ 53)"
    using assms(1) by (metis of_int_abs of_int_le_iff less_imp_le)
  then have m: "\<bar>(of_int m :: rat)\<bar> \<le> pow2 53" by (simp add: pow2_def)
  obtain z1 where z1: "fmul (Fin (of_int m)) (Fin c) = Fin z1" "\<bar>z1\<bar> \<le> pow2 (53 + 0)"
    using fmul_bounded [OF m, of c 0] c(2) by (auto simp: pow2_def)
  have "\<bar>50 :: rat\<bar> \<le> pow2 53" by (simp add: pow2_def)
  then obtain z2 where z2: "fadd (Fin 50) (Fin z1) = Fin z2" "\<bar>z2\<bar> \<le> pow2 (53 + 1)"
    using fadd_bounded [of 50 53 z1] z1(2) by auto
  have "\<bar>(of_int r :: rat)\<bar> \<le> 5" using assms(2) by (metis of_int_abs of_int_le_iff of_int_numeral)
  then have "\<bar>(of_int r :: rat)\<bar> \<le> pow2 54" by (simp add: pow2_def)
  then obtain z3 where z3: "fadd (Fin z2) (Fin (of_int r)) = Fin z3"
    using fadd_bounded [of z2 54 "of_int r"] z2(2) by auto
  show ?thesis using fm fr c(1) z1(1) z2(1) z3 by (simp add: derive_stat_def)
qed


lemma round_double_50: "round_double 50 = Fin 50"
  using round_double_int [of 50] by simp

lemma derive_stat_0_0: "derive_stat 0 0 = Inr 50"
proof -
  have "float_of_int 0 = Inr (Fin 0)" using float_of_int_exact [of 0] by simp
  moreover have "rat_trunc 50 = 50" using rat_trunc_int [of 50] by simp
  ultimately show ?thesis
    by (simp add: derive_stat_def f_0_7_value round_double_def [of 0] round_double_50)
qed

lemma derive_stat_1_0: "derive_stat 1 0 = Inr 50"
proof -
  have f0: "float_of_int 0 = Inr (Fin 0)" using float_of_int_exact [of 0] by simp
  have f1: "float_of_int 1 = Inr (Fin 1)" using float_of_int_exact [of 1] by simp
  have m: "round_double (3152519739159347 / 4503599627370496)
           = Fin (3152519739159347 / 4503599627370496)"
    using round_double_exact [of 6305039478318694 "- 53"] by (simp add: pow2_def)
  have a: "round_double (50 + 3152519739159347 / 4503599627370496)
           = Fin (of_int 7135390659615130 * pow2 (5 - 52))"
  proof (rule round_double_pos)
    show "round_half_even ((50 + 3152519739159347 / 4503599627370496) / pow2 (5 - 52))
          = 7135390659615130"
      by (rule round_half_even_near) (simp add: pow2_def)
  qed (simp_all add: pow2_def)
  have b: "round_double (3567695329807565 / 70368744177664) = Fin (3567695329807565 / 70368744177664)"
    using round_double_exact [of 7135390659615130 "- 47"] by (simp add: pow2_def)
  have "\<lfloor>3567695329807565 / 70368744177664 :: rat\<rfloor> = 50" by (rule floor_unique) simp_all
  then have t: "rat_trunc (3567695329807565 / 70368744177664) = 50" by (simp add: rat_trunc_def)
  have a': "round_double (50 + 3152519739159347 / 4503599627370496)
            = Fin (3567695329807565 / 70368744177664)"
    using a by (simp add: pow2_def)
  have a'': "round_double (228332501107684147 / 4503599627370496)
            = Fin (3567695329807565 / 70368744177664)"
    using a' by simp
  show ?thesis
    by (simp add: derive_stat_def f0 f1 f_0_7_value m a'' b t)
qed

lemma brisk_effects:
  "map pg_effect (query_pet_genetics brisk_db 1) = map Inr [(''speed'', 1)]"
proof -
  have "int_avg 1 1 = Inr 1" by (rule int_avg_same) simp
  then show ?thesis
    by (simp add: query_pet_genetics_def brisk_db_def load_pet_genetics_def pg_effect_def
        get_phenotype_def gene_speed_def allele_S_def lower_def lower_char_def)
qed

lemma speed_routing:
  "routed speed_traits ''speed''" "\<not> routed endurance_traits ''speed''"
  "\<not> routed speed_traits ''coat_color''" "\<not> routed endurance_traits ''coat_color''"
  by (simp_all add: routed_def speed_traits_def endurance_traits_def)

text \<open>
  The stat is cut off toward zero, not rounded: with one \<open>speed\<close> gene of effect 1 and
  both draws 0, the speed is \<open>int(50 + 0.7 + 0) = 50\<close>, where rounding would give 51.
\<close>

theorem update_stats_truncates_counterexample:
  "update_stats_from_genetics brisk_db (new_pet 1 1 ''Ada'' ''guinea_pig'' ''brown'') (\<lambda>n. 5) 0
   = Inr ((new_pet 1 1 ''Ada'' ''guinea_pig'' ''brown'')\<lparr>speed := 50, endurance := 50\<rparr>)
   \<and> random_randint (- 5) 5 5 = 0
   \<and> round ((50::rat) + 1 * (7 / 10) + 0) = 51"
proof -
  have r: "random_randint (- 5) 5 5 = 0" by (simp add: random_randint_def)
  have q: "query_pet_genetics brisk_db 1 \<noteq> []"
    by (simp add: query_pet_genetics_def brisk_db_def)
  have s: "stat_modifiers (0, 0) (query_pet_genetics brisk_db 1) = Inr (1, 0)"
    using stat_modifiers_sum [OF brisk_effects, of 0 0] by (simp add: speed_routing)
  have i: "pet_id (new_pet 1 1 ''Ada'' ''guinea_pig'' ''brown'') = 1" by (simp add: new_pet_def)
  have "update_stats_from_genetics brisk_db (new_pet 1 1 ''Ada'' ''guinea_pig'' ''brown'') (\<lambda>n. 5) 0
   = Inr ((new_pet 1 1 ''Ada'' ''guinea_pig'' ''brown'')\<lparr>speed := 50, endurance := 50\<rparr>)"
    using q by (simp add: update_stats_from_genetics_def Let_def i s r derive_stat_1_0 derive_stat_0_0
        clamp_stat_def)
  moreover have "round ((50::rat) + 1 * (7 / 10) + 0) = 51"
  proof -
    have "\<lfloor>256 / 5 :: rat\<rfloor> = 51" by (rule floor_unique) simp_all
    then show ?thesis by (simp add: round_def)
  qed
  ultimately show ?thesis using r by simp
qed


text \<open>
  C7 (amended). When every genotype entry of the pet resolves to a phenotype, and there is at
  least one entry, \<open>update_stats_from_genetics\<close> sets each stat to
  \<open>clamp(0, 100, int(50 + modifier * 0.7 + r))\<close>, the binary64 sum cut off toward zero (not
  rounded), where \<open>r\<close> is the stat's draw from \<open>[-5, 5]\<close> and \<open>modifier\<close> is the sum of the
  phenotype effect values of the genes whose lower-cased name contains one of the stat's
  keywords; for a modifier below \<open>2\<^sup>5\<^sup>3\<close> in magnitude the conversion never fails. A pet
  with no genotype entry is left as it is.
\<close>

theorem stats_from_genetics:
  assumes "map pg_effect (query_pet_genetics d (pet_id pet)) = map Inr effs"
  shows "(effs = [] \<longrightarrow> update_stats_from_genetics d pet rnd k = Inr pet) \<and>
         (effs \<noteq> [] \<longrightarrow>
            update_stats_from_genetics d pet rnd k =
              (case derive_stat (sum_list (map snd (filter (\<lambda>te. routed speed_traits (fst te)) effs)))
                      (random_randint (- 5) 5 (rnd k)) of
                 Inl e \<Rightarrow> Inl e
               | Inr s \<Rightarrow>
                   (case derive_stat
                           (sum_list (map snd (filter (\<lambda>te. routed endurance_traits (fst te)) effs)))
                           (random_randint (- 5) 5 (rnd (k + 1))) of
                      Inl e \<Rightarrow> Inl e
                    | Inr n \<Rightarrow> Inr (pet\<lparr>speed := max 0 (min 100 s), endurance := max 0 (min 100 n)\<rparr>)))) \<and>
         (\<forall>m r. \<bar>m\<bar> < 2 ^ 53 \<and> \<bar>r\<bar> \<le> 5 \<longrightarrow>
            (\<exists>x. fadd (fadd (Fin 50) (fmul (Fin (of_int m)) f_0_7)) (Fin (of_int r)) = Fin x \<and>
                 derive_stat m r = Inr (rat_trunc x))) \<and>
         - 5 \<le> random_randint (- 5) 5 (rnd k) \<and> random_randint (- 5) 5 (rnd k) \<le> 5 \<and>
         - 5 \<le> random_randint (- 5) 5 (rnd (k + 1)) \<and> random_randint (- 5) 5 (rnd (k + 1)) \<le> 5"
proof (intro conjI impI allI)
  assume "effs = []"
  then have "query_pet_genetics d (pet_id pet) = []" using assms by simp
  then show "update_stats_from_genetics d pet rnd k = Inr pet"
    by (simp add: update_stats_from_genetics_def)
next
  assume "effs \<noteq> []"
  then have ne: "query_pet_genetics d (pet_id pet) \<noteq> []" using assms by auto
  have s: "stat_modifiers (0, 0) (query_pet_genetics d (pet_id pet)) =
        Inr (sum_list (map snd (filter (\<lambda>te. routed speed_traits (fst te)) effs)),
             sum_list (map snd (filter (\<lambda>te. routed endurance_traits (fst te)) effs)))"
    using stat_modifiers_sum [OF assms, of 0 0] by simp
  show "update_stats_from_genetics d pet rnd k =
              (case derive_stat (sum_list (map snd (filter (\<lambda>te. routed speed_traits (fst te)) effs)))
                      (random_randint (- 5) 5 (rnd k)) of
                 Inl e \<Rightarrow> Inl e
               | Inr s \<Rightarrow>
                   (case derive_stat
                           (sum_list (map snd (filter (\<lambda>te. routed endurance_traits (fst te)) effs)))
                           (random_randint (- 5) 5 (rnd (k + 1))) of
                      Inl e \<Rightarrow> Inl e
                    | Inr n \<Rightarrow> Inr (pet\<lparr>speed := max 0 (min 100 s), endurance := max 0 (min 100 n)\<rparr>)))"
    using ne by (simp add: update_stats_from_genetics_def Let_def s clamp_stat_def split: sum.splits)
next
  fix m r :: int
  assume "\<bar>m\<bar> < 2 ^ 53 \<and> \<bar>r\<bar> \<le> 5"
  then show "\<exists>x. fadd (fadd (Fin 50) (fmul (Fin (of_int m)) f_0_7)) (Fin (of_int r)) = Fin x \<and>
                 derive_stat m r = Inr (rat_trunc x)"
    using derive_stat_value by blast
qed (simp_all add: random_randint_range)

lemma derive_stat_20_0: "derive_stat 20 0 = Inr 64"
proof -
  have f0: "float_of_int 0 = Inr (Fin 0)" using float_of_int_exact [of 0] by simp
  have f20: "float_of_int 20 = Inr (Fin 20)" using float_of_int_exact [of 20] by simp
  have m: "round_double (20 * (3152519739159347 / 4503599627370496))
           = Fin (of_int 7881299347898368 * pow2 (3 - 52))"
  proof (rule round_double_pos)
    show "round_half_even (20 * (3152519739159347 / 4503599627370496) / pow2 (3 - 52))
          = 7881299347898368"
      by (rule round_half_even_tie_odd [where n = 7881299347898367, simplified]) (simp add: pow2_def)
  qed (simp_all add: pow2_def)
  have m': "fmul (Fin 20) f_0_7 = Fin 14" using m by (simp add: f_0_7_value pow2_def)
  have r64: "round_double 64 = Fin 64" using round_double_int [of 64] by simp
  have t: "rat_trunc 64 = 64" using rat_trunc_int [of 64] by simp
  show ?thesis by (simp add: derive_stat_def f0 f20 m' r64 t)
qed

lemma example_effects:
  "map pg_effect (query_pet_genetics example_db 1) = map Inr [(''coat_color'', 20), (''speed'', 20)]"
  by (simp add: example_parents pg_effect_def get_phenotype_def catalog_defs lower_def lower_char_def)

theorem stats_from_genetics_witness:
  "map pg_effect (query_pet_genetics example_db (pet_id (new_pet 1 1 ''Ada'' ''guinea_pig'' ''brown'')))
     = map Inr [(''coat_color'', 20), (''speed'', 20)] \<and>
   update_stats_from_genetics example_db (new_pet 1 1 ''Ada'' ''guinea_pig'' ''brown'') (\<lambda>n. 5) 0
     = Inr ((new_pet 1 1 ''Ada'' ''guinea_pig'' ''brown'')\<lparr>speed := 64, endurance := 50\<rparr>) \<and>
   (\<exists>x. fadd (fadd (Fin 50) (fmul (Fin 20) f_0_7)) (Fin 0) = Fin x \<and> derive_stat 20 0 = Inr (rat_trunc x))"
proof -
  have i: "pet_id (new_pet 1 1 ''Ada'' ''guinea_pig'' ''brown'') = 1" by (simp add: new_pet_def)
  have e: "map pg_effect (query_pet_genetics example_db (pet_id (new_pet 1 1 ''Ada'' ''guinea_pig'' ''brown'')))
     = map Inr [(''coat_color'', 20), (''speed'', 20)]"
    unfolding i by (rule example_effects)
  have r: "random_randint (- 5) 5 5 = 0" by (simp add: random_randint_def)
  note t = stats_from_genetics [OF e, of "\<lambda>n. 5" 0]
  have "update_stats_from_genetics example_db (new_pet 1 1 ''Ada'' ''guinea_pig'' ''brown'') (\<lambda>n. 5) 0
     = Inr ((new_pet 1 1 ''Ada'' ''guinea_pig'' ''brown'')\<lparr>speed := 64, endurance := 50\<rparr>)"
    using t by (simp add: speed_routing r derive_stat_20_0 derive_stat_0_0)
  moreover have "\<exists>x. fadd (fadd (Fin 50) (fmul (Fin 20) f_0_7)) (Fin 0) = Fin x \<and>
                      derive_stat 20 0 = Inr (rat_trunc x)"
  proof -
    have "\<bar>20 :: int\<bar> < 2 ^ 53 \<and> \<bar>0 :: int\<bar> \<le> 5" by simp
    then have "\<exists>x. fadd (fadd (Fin 50) (fmul (Fin (of_int 20)) f_0_7)) (Fin (of_int 0)) = Fin x \<and>
                 derive_stat 20 0 = Inr (rat_trunc x)"
      using t by blast
    then show ?thesis by simp
  qed
  ultimately show ?thesis using e by simp
qed

end
